theory Spec2Isabelle
  imports Main "HOL-Library.Word"
begin

section \<open>The HM-CFG-USB driver (hmcfgusb.c) as state-passing functions\<close>

text \<open>
  The C file drives one USB device through libusb. Its functions are embedded as HOL
  functions over a record \<open>world\<close> holding everything they read or write: the two
  file-scope variables \<open>quit\<close> and \<open>debug\<close>, \<open>errno\<close>, the handle object
  \<open>struct hmcfgusb_dev\<close>, libusb's view of the transfer objects, and the sequence of
  calls made to the outside (libusb, poll, the consumer callback, stderr, hexdump).

  What libusb, \<open>poll\<close>, \<open>malloc\<close> and \<open>realloc\<close> answer is not decided by the C file.
  Each such answer is an argument of the embedded function, so every theorem holds for
  every answer the environment can give.

  Integers of type \<open>int\<close>, \<open>short\<close> and \<open>time_t\<close> are HOL integers; the one place where
  a value is narrowed (the \<open>long\<close> product handed to \<open>poll\<close> as an \<open>int\<close>) has the
  wrap-around written out in \<open>c_int\<close> (LP64: 64-bit \<open>time_t\<close>, 32-bit \<open>int\<close>).
\<close>

subsection \<open>Constants of the C file and of the system headers\<close>

type_synonym addr = nat
type_synonym byte = "8 word"

definition USB_TIMEOUT :: int where "USB_TIMEOUT = 10000"
definition EP_OUT :: int where "EP_OUT = 2"
definition ID_VENDOR :: int where "ID_VENDOR = 6943"
definition ID_PRODUCT :: int where "ID_PRODUCT = 49167"

text \<open>\<open>EIO\<close> comes from \<open>errno.h\<close>; on Linux it is 5 (POSIX requires it to be positive).\<close>

definition EIO :: int where "EIO = 5"

text \<open>\<open>LIBUSB_ERROR_NOT_FOUND\<close> comes from \<open>libusb.h\<close>.\<close>

definition LIBUSB_ERROR_NOT_FOUND :: int where "LIBUSB_ERROR_NOT_FOUND = - 5"

definition INT_MAX :: int where "INT_MAX = 2147483647"

text \<open>Conversion of a \<open>long\<close> to a 32-bit \<open>int\<close>, as gcc and clang do it (modulo \<open>2 ^ 32\<close>).\<close>

definition c_int :: "int \<Rightarrow> int" where
  "c_int x = (x + 2147483648) mod 4294967296 - 2147483648"

subsection \<open>Data\<close>

text \<open>\<open>enum libusb_transfer_status\<close> of \<open>libusb.h\<close>.\<close>

datatype libusb_transfer_status =
    LIBUSB_TRANSFER_COMPLETED
  | LIBUSB_TRANSFER_ERROR
  | LIBUSB_TRANSFER_TIMED_OUT
  | LIBUSB_TRANSFER_CANCELLED
  | LIBUSB_TRANSFER_STALL
  | LIBUSB_TRANSFER_NO_DEVICE
  | LIBUSB_TRANSFER_OVERFLOW

text \<open>\<open>struct pollfd\<close> of \<open>poll.h\<close>.\<close>

record pollfd =
  fd :: int
  events :: int
  revents :: int

text \<open>
  \<open>struct hmcfgusb_cb_data\<close> (lines 200-204). There is one handle object in the
  \<open>world\<close>, so the pointer \<open>dev\<close> is either \<open>NULL\<close> (\<open>False\<close>) or points to it
  (\<open>True\<close>). The consumer callback \<open>cb\<close> is a function pointer (\<open>None\<close> is \<open>NULL\<close>)
  taking the buffer, its length and the opaque \<open>data\<close> pointer, and returning a C
  truth value.
\<close>

record hmcfgusb_cb_data =
  cbd_dev :: bool
  cbd_cb :: "(byte list \<Rightarrow> int \<Rightarrow> addr \<Rightarrow> int) option"
  cbd_data :: addr

text \<open>
  The fields of \<open>struct libusb_transfer\<close> that the C file reads, together with the
  address of the object itself (\<open>t_self\<close>), which is what \<open>libusb_submit_transfer\<close>
  and \<open>libusb_free_transfer\<close> are given.
\<close>

record libusb_transfer =
  t_self :: addr
  status :: libusb_transfer_status
  buffer :: "byte list"
  actual_length :: int
  user_data :: "hmcfgusb_cb_data option"

text \<open>
  Modelled from the spec: \<open>struct hmcfgusb_dev\<close> is declared in \<open>hmcfgusb.h\<close>, which
  is not among the sources. The fields are those hmcfgusb.c uses, and they are the
  spec's Transport Handle: device connection, outstanding receive transfer (nullable),
  poll descriptor list, count of internally-owned entries, total entry count.
  A \<open>NULL\<close> pointer is \<open>None\<close>.
\<close>

record hmcfgusb_dev =
  usb_devh :: addr
  transfer :: "addr option"
  n_usb_pfd :: int
  pfd :: "pollfd list option"
  n_pfd :: int

text \<open>Calls that leave the C file, in the order they are made.\<close>

datatype event =
    Ev_stderr string
  | Ev_hexdump "byte list" int string
  | Ev_consumer "byte list" int addr int
  | Ev_submit addr int
  | Ev_free addr
  | Ev_cancel addr
  | Ev_interrupt_transfer addr int "byte list" int int int
  | Ev_poll "pollfd list option" int int int
  | Ev_handle_events
  | Ev_release_interface addr int
  | Ev_close addr
  | Ev_exit

text \<open>What libusb knows about a transfer object that has been allocated and not freed.\<close>

datatype xfer_state = Idle | In_flight

record world =
  quit :: int
  debug :: int
  errno :: int
  dev :: hmcfgusb_dev
  xfers :: "addr \<Rightarrow> xfer_state option"
  trace :: "event list"

definition emit :: "event \<Rightarrow> world \<Rightarrow> world" where
  "emit e w = w\<lparr>trace := trace w @ [e]\<rparr>"

subsection \<open>The send path (lines 142-164)\<close>

text \<open>
  \<open>err1\<close> and \<open>err2\<close> are what \<open>libusb_interrupt_transfer\<close> returns for the data
  transfer and for the zero-length transfer; \<open>err2\<close> is only looked at when the second
  call is made.
\<close>

definition hmcfgusb_send :: "byte list \<Rightarrow> int \<Rightarrow> int \<Rightarrow> int \<Rightarrow> int \<Rightarrow> world \<Rightarrow> int \<times> world" where
  "hmcfgusb_send send_data len done err1 err2 w =
    (let w1 = (if debug w \<noteq> 0 then emit (Ev_hexdump send_data len ''USB < '') w else w);
         w2 = emit (Ev_interrupt_transfer (usb_devh (dev w1)) EP_OUT send_data len USB_TIMEOUT err1) w1
     in if err1 \<noteq> 0 then (0, emit (Ev_stderr ''Can't send data'') w2)
        else if done \<noteq> 0 then
          (let w3 = emit (Ev_interrupt_transfer (usb_devh (dev w2)) EP_OUT send_data 0 USB_TIMEOUT err2) w2
           in if err2 \<noteq> 0 then (0, emit (Ev_stderr ''Can't send data'') w3) else (1, w3))
        else (1, w2))"

subsection \<open>libusb's transfer objects\<close>

text \<open>
  \<open>libusb_submit_transfer\<close> returns \<open>err\<close>; the transfer is in flight when that is 0.
  \<open>libusb_free_transfer\<close> releases the object.
\<close>

definition libusb_submit_transfer :: "addr \<Rightarrow> int \<Rightarrow> world \<Rightarrow> world" where
  "libusb_submit_transfer a err w =
     emit (Ev_submit a err) (if err = 0 then w\<lparr>xfers := (xfers w)(a \<mapsto> In_flight)\<rparr> else w)"

definition libusb_free_transfer :: "addr \<Rightarrow> world \<Rightarrow> world" where
  "libusb_free_transfer a w = emit (Ev_free a) (w\<lparr>xfers := (xfers w)(a := None)\<rparr>)"

subsection \<open>The completion callback (lines 206-249)\<close>

text \<open>Lines 218-221 and 232-235: free the handle's transfer and clear the slot.\<close>

definition free_dev_transfer :: "hmcfgusb_cb_data option \<Rightarrow> world \<Rightarrow> world" where
  "free_dev_transfer cb_data w =
     (case cb_data of
        None \<Rightarrow> w
      | Some c \<Rightarrow>
          if cbd_dev c then
            (case transfer (dev w) of
               None \<Rightarrow> w
             | Some a \<Rightarrow> (libusb_free_transfer a w)\<lparr>dev := (dev w)\<lparr>transfer := None\<rparr>\<rparr>)
          else w)"

text \<open>Lines 244-248: submit the same transfer again; free it when that fails.\<close>

definition resubmit :: "libusb_transfer \<Rightarrow> int \<Rightarrow> world \<Rightarrow> world" where
  "resubmit t err w =
     (let w1 = libusb_submit_transfer (t_self t) err w
      in if err \<noteq> 0
         then libusb_free_transfer (t_self t) (emit (Ev_stderr ''Can't re-submit transfer'') w1)
         else w1)"

text \<open>
  \<open>submit_err\<close> is what \<open>libusb_submit_transfer\<close> returns if the callback gets as far
  as line 244. The consumer callback is taken to be a function of its arguments: it
  does not itself call back into this file.
\<close>

definition hmcfgusb_interrupt :: "libusb_transfer \<Rightarrow> int \<Rightarrow> world \<Rightarrow> world" where
  "hmcfgusb_interrupt t submit_err w =
    (let cb_data = user_data t;
         no_cb = resubmit t submit_err (emit (Ev_hexdump (buffer t) (actual_length t) ''> '') w)
     in if status t \<noteq> LIBUSB_TRANSFER_COMPLETED then
          (if status t \<noteq> LIBUSB_TRANSFER_TIMED_OUT then
             free_dev_transfer cb_data
               ((emit (Ev_stderr ''Interrupt transfer not completed'') w)\<lparr>quit := EIO\<rparr>)
           else resubmit t submit_err w)
        else
          (case cb_data of
             None \<Rightarrow> no_cb
           | Some c \<Rightarrow>
               (case cbd_cb c of
                  None \<Rightarrow> no_cb
                | Some cb \<Rightarrow>
                    (let w1 = (if debug w \<noteq> 0
                               then emit (Ev_hexdump (buffer t) (actual_length t) ''USB > '') w
                               else w);
                         r = cb (buffer t) (actual_length t) (cbd_data c);
                         w2 = emit (Ev_consumer (buffer t) (actual_length t) (cbd_data c) r) w1
                     in if r = 0 then free_dev_transfer cb_data (w2\<lparr>quit := EIO\<rparr>)
                        else resubmit t submit_err w2))))"

text \<open>
  The spec's two states of the receive engine, read off the world: ARMED when the
  handle's transfer slot names a transfer that is submitted and awaiting completion,
  DEAD when no transfer is outstanding.
\<close>

datatype engine_state = ARMED | DEAD

definition engine_state :: "world \<Rightarrow> engine_state" where
  "engine_state w =
     (case transfer (dev w) of
        None \<Rightarrow> DEAD
      | Some a \<Rightarrow> if xfers w a = Some In_flight then ARMED else DEAD)"

subsection \<open>Registering a descriptor (lines 333-347)\<close>

text \<open>
  \<open>realloc\<close> either fails (\<open>ok\<close> is false: it returns \<open>NULL\<close>) or returns storage for
  \<open>n\<close> entries that starts with the old contents; what the new entries hold before
  they are written is \<open>junk\<close>.
\<close>

definition realloc_pfd :: "pollfd list option \<Rightarrow> int \<Rightarrow> pollfd \<Rightarrow> bool \<Rightarrow> pollfd list option" where
  "realloc_pfd p n junk ok =
     (if ok then
        (let xs = (case p of None \<Rightarrow> [] | Some ys \<Rightarrow> ys)
         in Some (take (nat n) xs @ replicate (nat n - length xs) junk))
      else None)"

definition hmcfgusb_add_pfd :: "int \<Rightarrow> int \<Rightarrow> pollfd \<Rightarrow> bool \<Rightarrow> world \<Rightarrow> int \<times> world" where
  "hmcfgusb_add_pfd fdv ev junk ok w =
    (let d1 = (dev w)\<lparr>n_pfd := n_pfd (dev w) + 1\<rparr>;
         d2 = d1\<lparr>pfd := realloc_pfd (pfd d1) (n_pfd d1) junk ok\<rparr>
     in case pfd d2 of
          None \<Rightarrow> (0, emit (Ev_stderr ''Can't realloc poll-fds'') (w\<lparr>dev := d2\<rparr>))
        | Some xs \<Rightarrow>
            (let i = nat (n_pfd d2 - 1);
                 ys = xs[i := (xs ! i)\<lparr>fd := fdv, events := ev, revents := 0\<rparr>]
             in (1, w\<lparr>dev := d2\<lparr>pfd := Some ys\<rparr>\<rparr>)))"

text \<open>
  The handle as \<open>hmcfgusb_init\<close> leaves it and successful registrations keep it: the
  list has \<open>n_pfd\<close> entries, of which the first \<open>n_usb_pfd\<close> are libusb's.
\<close>

definition wf_dev :: "hmcfgusb_dev \<Rightarrow> bool" where
  "wf_dev d =
     (case pfd d of
        None \<Rightarrow> False
      | Some xs \<Rightarrow> int (length xs) = n_pfd d \<and> 0 \<le> n_usb_pfd d \<and> n_usb_pfd d \<le> n_pfd d)"

text \<open>The entries of the list; a \<open>NULL\<close> list has none.\<close>

definition pfd_entries :: "hmcfgusb_dev \<Rightarrow> pollfd list" where
  "pfd_entries d = (case pfd d of None \<Rightarrow> [] | Some xs \<Rightarrow> xs)"

subsection \<open>The multiplexer's wait operation (lines 349-419)\<close>

text \<open>
  What the environment answers during one call: the return value of
  \<open>libusb_get_next_timeout\<close> and the \<open>(tv_sec, tv_usec)\<close> it leaves in \<open>tv\<close>; the
  return value of \<open>poll\<close> and the \<open>revents\<close> it stores for each index; the return
  value of \<open>libusb_handle_events_timeout_completed\<close> and the transfers that complete
  inside it, each with the answer its resubmission would get.
\<close>

record poll_env =
  next_timeout_err :: int
  next_timeout_tv :: "int \<times> int"
  poll_ret :: int
  poll_revents :: "nat \<Rightarrow> int"
  handle_events_err :: int
  completions :: "(libusb_transfer \<times> int) list"

text \<open>
  libusb runs the callback of every transfer that has completed; only a transfer that
  is in flight can complete, and it is no longer in flight when its callback runs.
\<close>

definition complete_transfer :: "libusb_transfer \<Rightarrow> int \<Rightarrow> world \<Rightarrow> world" where
  "complete_transfer t e w = hmcfgusb_interrupt t e (w\<lparr>xfers := (xfers w)(t_self t \<mapsto> Idle)\<rparr>)"

fun run_completions :: "(libusb_transfer \<times> int) list \<Rightarrow> world \<Rightarrow> world" where
  "run_completions [] w = w"
| "run_completions ((t, e) # cs) w =
     (if xfers w (t_self t) = Some In_flight
      then run_completions cs (complete_transfer t e w)
      else run_completions cs w)"

definition libusb_handle_events_timeout_completed ::
    "(libusb_transfer \<times> int) list \<Rightarrow> world \<Rightarrow> world" where
  "libusb_handle_events_timeout_completed cs w = run_completions cs (emit Ev_handle_events w)"

text \<open>Lines 376-378.\<close>

definition clear_revents :: "int \<Rightarrow> pollfd list \<Rightarrow> pollfd list" where
  "clear_revents n xs = map (\<lambda>p. p\<lparr>revents := 0\<rparr>) (take (nat n) xs) @ drop (nat n) xs"

text \<open>\<open>poll\<close> stores \<open>revents\<close> in each of the \<open>nfds\<close> entries it is given.\<close>

fun poll_store :: "(nat \<Rightarrow> int) \<Rightarrow> nat \<Rightarrow> pollfd list \<Rightarrow> pollfd list" where
  "poll_store rv i [] = []"
| "poll_store rv i (p # ps) = p\<lparr>revents := rv i\<rparr> # poll_store rv (Suc i) ps"

definition poll_write :: "(nat \<Rightarrow> int) \<Rightarrow> int \<Rightarrow> pollfd list \<Rightarrow> pollfd list" where
  "poll_write rv n xs = poll_store rv 0 (take (nat n) xs) @ drop (nat n) xs"

text \<open>
  Lines 388-398: the scan over the entries, \<open>fd_n\<close> counting up from 0. It stops at
  the first entry with nonzero \<open>revents\<close>.
\<close>

datatype scan_result = Usb_event | Return_fd int | Nothing_ready

fun scan_pfd :: "int \<Rightarrow> int \<Rightarrow> pollfd list \<Rightarrow> scan_result" where
  "scan_pfd n_usb fd_n [] = Nothing_ready"
| "scan_pfd n_usb fd_n (p # ps) =
     (if revents p \<noteq> 0
      then (if fd_n < n_usb then Usb_event else Return_fd (fd p))
      else scan_pfd n_usb (fd_n + 1) ps)"

text \<open>Lines 412-418.\<close>

definition poll_finish :: "world \<Rightarrow> int \<times> world" where
  "poll_finish w =
     (let w1 = w\<lparr>errno := 0\<rparr>
      in if quit w1 \<noteq> 0
         then (- 1, (emit (Ev_stderr ''closing device-connection due to error'') w1)\<lparr>errno := quit w1\<rparr>)
         else (- 1, w1))"

text \<open>Lines 402-418 when \<open>usb_event\<close> is set.\<close>

definition poll_service :: "poll_env \<Rightarrow> world \<Rightarrow> int \<times> world" where
  "poll_service env w =
     (let w1 = libusb_handle_events_timeout_completed (completions env) w
      in if handle_events_err env < 0
         then (- 1, (emit (Ev_stderr ''libusb_handle_events_timeout_completed'') w1)\<lparr>errno := EIO\<rparr>)
         else poll_finish w1)"

text \<open>
  The two loops index \<open>dev->pfd\<close> from 0 up to \<open>n_pfd\<close>. When the list is \<open>NULL\<close> or
  shorter than that, the C program reads and writes outside it; the embedding then
  gives \<open>None\<close>.
\<close>

definition pfd_in_bounds :: "hmcfgusb_dev \<Rightarrow> bool" where
  "pfd_in_bounds d =
     (case pfd d of None \<Rightarrow> n_pfd d \<le> 0 | Some xs \<Rightarrow> n_pfd d \<le> int (length xs))"

text \<open>
  Lines 376-380: clear every \<open>revents\<close>, call \<open>poll\<close> with \<open>tv.tv_sec * 1000\<close>
  milliseconds, and have \<open>poll\<close> store what it found.
\<close>

definition poll_step :: "int \<Rightarrow> poll_env \<Rightarrow> world \<Rightarrow> world" where
  "poll_step tv_sec env w =
     (let d1 = (dev w)\<lparr>pfd := map_option (clear_revents (n_pfd (dev w))) (pfd (dev w))\<rparr>;
          d2 = d1\<lparr>pfd := map_option (poll_write (poll_revents env) (n_pfd d1)) (pfd d1)\<rparr>
      in emit (Ev_poll (pfd d1) (n_pfd d1) (c_int (tv_sec * 1000)) (poll_ret env)) (w\<lparr>dev := d2\<rparr>))"

text \<open>Lines 381-418: what happens with the result \<open>n\<close> of \<open>poll\<close>.\<close>

definition poll_dispatch :: "poll_env \<Rightarrow> world \<Rightarrow> int \<times> world" where
  "poll_dispatch env w =
     (let n = poll_ret env
      in if n < 0 then (- 1, (emit (Ev_stderr ''poll'') w)\<lparr>errno := 0\<rparr>)
         else if n = 0 then poll_service env w
         else
           (case scan_pfd (n_usb_pfd (dev w)) 0
                   (take (nat (n_pfd (dev w))) (pfd_entries (dev w))) of
              Return_fd f \<Rightarrow> (f, w\<lparr>errno := 0\<rparr>)
            | Usb_event \<Rightarrow> poll_service env w
            | Nothing_ready \<Rightarrow> poll_finish w))"

definition hmcfgusb_poll :: "int \<Rightarrow> poll_env \<Rightarrow> world \<Rightarrow> (int \<times> world) option" where
  "hmcfgusb_poll timeout env w0 =
    (let w = w0\<lparr>errno := 0\<rparr>;
         err = next_timeout_err env
     in if err < 0
        then Some (- 1, (emit (Ev_stderr ''libusb_get_next_timeout'') w)\<lparr>errno := EIO\<rparr>)
        else
          (let tv = (if err = 0 then (timeout, snd (next_timeout_tv env)) else next_timeout_tv env);
               usb_event = (err \<noteq> 0 \<and> fst tv = 0 \<and> snd tv = 0)
           in if usb_event then Some (poll_service env w)
              else if \<not> pfd_in_bounds (dev w) then None
              else Some (poll_dispatch env (poll_step (fst tv) env w))))"

subsection \<open>Opening the channel (lines 93-140, 166-198, 251-331)\<close>

text \<open>
  One entry of the list \<open>libusb_get_device_list\<close> returns, with what libusb answers
  for it: the result of reading its descriptor, the two identifiers, and the results
  of opening it, detaching the kernel driver and claiming the interface.
\<close>

record usb_device =
  get_descriptor_err :: int
  idVendor :: int
  idProduct :: int
  open_err :: int
  devh :: addr
  detach_err :: int
  claim_err :: int

text \<open>The loop of \<open>hmcfgusb_find\<close> (lines 106-137).\<close>

fun find_loop :: "usb_device list \<Rightarrow> world \<Rightarrow> addr option \<times> world" where
  "find_loop [] w = (None, w)"
| "find_loop (u # us) w =
     (if get_descriptor_err u \<noteq> 0 then find_loop us w
      else if idVendor u = ID_VENDOR \<and> idProduct u = ID_PRODUCT then
        (if open_err u \<noteq> 0 then (None, emit (Ev_stderr ''Can't open device'') w)
         else if detach_err u \<noteq> 0 \<and> detach_err u \<noteq> LIBUSB_ERROR_NOT_FOUND
           then (None, emit (Ev_stderr ''Can't detach kernel driver'') w)
         else if claim_err u \<noteq> 0 then (None, emit (Ev_stderr ''Can't claim interface'') w)
         else (Some (devh u), w))
      else find_loop us w)"

text \<open>\<open>None\<close> for the device list is a negative count from \<open>libusb_get_device_list\<close>.\<close>

definition hmcfgusb_find :: "usb_device list option \<Rightarrow> world \<Rightarrow> addr option \<times> world" where
  "hmcfgusb_find lst w =
     (case lst of
        None \<Rightarrow> (None, emit (Ev_stderr ''Can't get USB device list'') w)
      | Some us \<Rightarrow> find_loop us w)"

text \<open>
  \<open>hmcfgusb_prepare_int\<close>: \<open>buf_ok\<close> is whether \<open>malloc\<close> gave a buffer, \<open>alloc\<close> what
  \<open>libusb_alloc_transfer\<close> returns, \<open>err\<close> what \<open>libusb_submit_transfer\<close> returns.
\<close>

definition hmcfgusb_prepare_int :: "bool \<Rightarrow> addr option \<Rightarrow> int \<Rightarrow> world \<Rightarrow> addr option \<times> world" where
  "hmcfgusb_prepare_int buf_ok alloc err w =
     (if \<not> buf_ok then (None, emit (Ev_stderr ''Can't allocate memory for data-buffer!'') w)
      else
        (case alloc of
           None \<Rightarrow> (None, emit (Ev_stderr ''Can't allocate memory for usb-transfer!'') w)
         | Some a \<Rightarrow>
             (let w1 = libusb_submit_transfer a err (w\<lparr>xfers := (xfers w)(a \<mapsto> Idle)\<rparr>)
              in if err \<noteq> 0
                 then (None, libusb_free_transfer a (emit (Ev_stderr ''Can't submit transfer'') w1))
                 else (Some a, w1))))"

record init_env =
  libusb_init_err :: int
  device_list :: "usb_device list option"
  malloc_dev_ok :: bool
  malloc_cb_data_ok :: bool
  malloc_buf_ok :: bool
  alloc_transfer :: "addr option"
  submit_err :: int
  get_pollfds :: "(int \<times> int) list option"
  malloc_pfd_ok :: bool

text \<open>
  \<open>hmcfgusb_init\<close> returns the new handle or \<open>NULL\<close>. The embedding returns whether
  a handle came back; when it did, the \<open>dev\<close> of the resulting world is that handle.
  \<open>get_pollfds\<close> is the \<open>(fd, events)\<close> list of \<open>libusb_get_pollfds\<close>, or \<open>None\<close> for
  \<open>NULL\<close>.
\<close>

definition hmcfgusb_init :: "init_env \<Rightarrow> world \<Rightarrow> bool \<times> world" where
  "hmcfgusb_init env w =
    (if libusb_init_err env \<noteq> 0 then (False, emit (Ev_stderr ''Can't initialize libusb'') w)
     else
       (case hmcfgusb_find (device_list env) w of
          (None, w1) \<Rightarrow> (False, emit (Ev_stderr ''Can't find/open hmcfgusb!'') w1)
        | (Some h, w1) \<Rightarrow>
            if \<not> malloc_dev_ok env
              then (False, emit (Ev_stderr ''Can't allocate memory for hmcfgusb_dev'') w1)
            else if \<not> malloc_cb_data_ok env
              then (False, emit (Ev_stderr ''Can't allocate memory for hmcfgusb_cb_data'') w1)
            else
              (case hmcfgusb_prepare_int (malloc_buf_ok env) (alloc_transfer env) (submit_err env) w1 of
                 (None, w2) \<Rightarrow> (False, emit (Ev_stderr ''Can't prepare async device io!'') w2)
               | (Some a, w2) \<Rightarrow>
                   (case get_pollfds env of
                      None \<Rightarrow> (False, emit (Ev_stderr ''Can't get FDset from libusb!'') w2)
                    | Some ps \<Rightarrow>
                        if \<not> malloc_pfd_ok env
                          then (False, emit (Ev_stderr ''Can't allocate memory for poll-fds'') w2)
                        else
                          (True,
                           w2\<lparr>dev := \<lparr>usb_devh = h, transfer = Some a,
                                       n_usb_pfd = int (length ps),
                                       pfd = Some (map (\<lambda>(f, e). \<lparr>fd = f, events = e, revents = 0\<rparr>) ps),
                                       n_pfd = int (length ps)\<rparr>,
                                quit := 0\<rparr>)))))"

subsection \<open>Closing the channel and the debug switch (lines 421-444)\<close>

text \<open>
  \<open>release_err\<close> is what \<open>libusb_release_interface\<close> returns. The handle and its
  list are freed at the end and must not be used afterwards; the record is left as it
  was.
\<close>

definition hmcfgusb_close :: "int \<Rightarrow> world \<Rightarrow> world" where
  "hmcfgusb_close release_err w =
    (let w1 = (case transfer (dev w) of None \<Rightarrow> w | Some a \<Rightarrow> emit (Ev_cancel a) w);
         w2 = emit (Ev_release_interface (usb_devh (dev w1)) release_err) w1;
         w3 = (if release_err \<noteq> 0 then emit (Ev_stderr ''Can't release interface'') w2 else w2)
     in emit Ev_exit (emit (Ev_close (usb_devh (dev w3))) w3))"

definition hmcfgusb_set_debug :: "int \<Rightarrow> world \<Rightarrow> world" where
  "hmcfgusb_set_debug d w = w\<lparr>debug := d\<rparr>"

subsection \<open>Reading a run\<close>

text \<open>The wait bounds, in milliseconds, of the \<open>poll\<close> calls in a trace.\<close>

fun poll_timeouts :: "event list \<Rightarrow> int list" where
  "poll_timeouts [] = []"
| "poll_timeouts (Ev_poll p n ms k # es) = ms # poll_timeouts es"
| "poll_timeouts (e # es) = poll_timeouts es"

text \<open>The synchronous USB transfers (\<open>libusb_interrupt_transfer\<close> calls) in a trace.\<close>

fun interrupt_transfers :: "event list \<Rightarrow> event list" where
  "interrupt_transfers [] = []"
| "interrupt_transfers (Ev_interrupt_transfer h ep b l t r # es) =
     Ev_interrupt_transfer h ep b l t r # interrupt_transfers es"
| "interrupt_transfers (e # es) = interrupt_transfers es"

text \<open>The consumer callback's invocations in a trace.\<close>

fun consumer_calls :: "event list \<Rightarrow> event list" where
  "consumer_calls [] = []"
| "consumer_calls (Ev_consumer b l d r # es) = Ev_consumer b l d r # consumer_calls es"
| "consumer_calls (e # es) = consumer_calls es"

definition returned :: "(int \<times> world) option \<Rightarrow> int option" where
  "returned r = map_option fst r"

definition world_after :: "(int \<times> world) option \<Rightarrow> world option" where
  "world_after r = map_option snd r"

subsection \<open>Concrete inputs\<close>

text \<open>
  A handle with one descriptor of libusb's (3) and one registered by the caller (7),
  its receive transfer (object 2) in flight; a consumer that accepts every buffer and
  one that rejects every buffer; a completed transfer with a given status; and the
  \<open>quit\<close> flag at a given value.
\<close>

definition accept_all :: "byte list \<Rightarrow> int \<Rightarrow> addr \<Rightarrow> int" where
  "accept_all buf len data = 1"

definition reject_all :: "byte list \<Rightarrow> int \<Rightarrow> addr \<Rightarrow> int" where
  "reject_all buf len data = 0"

definition example_cb_data :: hmcfgusb_cb_data where
  "example_cb_data = \<lparr>cbd_dev = True, cbd_cb = Some accept_all, cbd_data = 0\<rparr>"

definition example_transfer :: "libusb_transfer_status \<Rightarrow> libusb_transfer" where
  "example_transfer st =
     \<lparr>t_self = 2, status = st, buffer = [1, 2, 3], actual_length = 3,
      user_data = Some example_cb_data\<rparr>"

definition example_dev :: hmcfgusb_dev where
  "example_dev =
     \<lparr>usb_devh = 1, transfer = Some 2, n_usb_pfd = 1,
      pfd = Some [\<lparr>fd = 3, events = 1, revents = 0\<rparr>, \<lparr>fd = 7, events = 1, revents = 0\<rparr>],
      n_pfd = 2\<rparr>"

definition example_world :: "int \<Rightarrow> world" where
  "example_world q =
     \<lparr>quit = q, debug = 0, errno = 0, dev = example_dev,
      xfers = (\<lambda>a. if a = 2 then Some In_flight else None), trace = []\<rparr>"

text \<open>
  Answers of the environment to one wait call: no error anywhere, no transfer
  completing; \<open>libusb_get_next_timeout\<close> returns \<open>err\<close> and leaves \<open>tv\<close>; \<open>poll\<close>
  returns \<open>n\<close> and reports the indices in \<open>ready\<close> as readable.
\<close>

definition example_env :: "int \<Rightarrow> int \<times> int \<Rightarrow> int \<Rightarrow> nat list \<Rightarrow> poll_env" where
  "example_env err tv n ready =
     \<lparr>next_timeout_err = err, next_timeout_tv = tv, poll_ret = n,
      poll_revents = (\<lambda>i. if i \<in> set ready then 1 else 0),
      handle_events_err = 0, completions = []\<rparr>"

section \<open>Properties\<close>

subsection \<open>Reading fields through the small steps\<close>

lemma emit_fields [simp]:
  "quit (emit e w) = quit w" "debug (emit e w) = debug w" "errno (emit e w) = errno w"
  "dev (emit e w) = dev w" "xfers (emit e w) = xfers w" "trace (emit e w) = trace w @ [e]"
  by (simp_all add: emit_def)

lemma poll_timeouts_append [simp]: "poll_timeouts (xs @ ys) = poll_timeouts xs @ poll_timeouts ys"
  by (induction xs rule: poll_timeouts.induct) simp_all

lemma consumer_calls_append [simp]: "consumer_calls (xs @ ys) = consumer_calls xs @ consumer_calls ys"
  by (induction xs rule: consumer_calls.induct) simp_all

lemma submit_fields [simp]:
  "quit (libusb_submit_transfer a e w) = quit w"
  "dev (libusb_submit_transfer a e w) = dev w"
  "trace (libusb_submit_transfer a e w) = trace w @ [Ev_submit a e]"
  "xfers (libusb_submit_transfer a e w) = (if e = 0 then (xfers w)(a \<mapsto> In_flight) else xfers w)"
  by (simp_all add: libusb_submit_transfer_def)

lemma free_fields [simp]:
  "quit (libusb_free_transfer a w) = quit w"
  "dev (libusb_free_transfer a w) = dev w"
  "trace (libusb_free_transfer a w) = trace w @ [Ev_free a]"
  "xfers (libusb_free_transfer a w) = (xfers w)(a := None)"
  by (simp_all add: libusb_free_transfer_def)

lemma resubmit_fields:
  "quit (resubmit t e w) = quit w"
  "dev (resubmit t e w) = dev w"
  "trace (resubmit t e w) =
     trace w @ (if e = 0 then [Ev_submit (t_self t) e]
                else [Ev_submit (t_self t) e, Ev_stderr ''Can't re-submit transfer'', Ev_free (t_self t)])"
  "xfers (resubmit t e w) = (if e = 0 then (xfers w)(t_self t \<mapsto> In_flight) else (xfers w)(t_self t := None))"
  by (simp_all add: resubmit_def Let_def)

lemma free_dev_transfer_quit [simp]: "quit (free_dev_transfer c w) = quit w"
  by (simp add: free_dev_transfer_def split: option.splits)

lemma free_dev_transfer_trace:
  "\<exists>es. trace (free_dev_transfer c w) = trace w @ es \<and> poll_timeouts es = [] \<and> consumer_calls es = []"
  by (simp add: free_dev_transfer_def split: option.splits)

lemma free_dev_transfer_frees:
  "cbd_dev c \<Longrightarrow> transfer (dev w) = Some a \<Longrightarrow>
     xfers (free_dev_transfer (Some c) w) a = None \<and> transfer (dev (free_dev_transfer (Some c) w)) = None"
  by (simp add: free_dev_transfer_def)

lemma EIO_nonzero: "EIO \<noteq> 0"
  by (simp add: EIO_def)

lemma wf_dev_in_bounds: "wf_dev d \<Longrightarrow> pfd_in_bounds d"
  by (auto simp: wf_dev_def pfd_in_bounds_def split: option.splits)

lemmas example_defs = example_world_def example_dev_def example_transfer_def example_cb_data_def
  accept_all_def example_env_def

subsection \<open>Send path\<close>

lemma interrupt_transfers_append [simp]:
  "interrupt_transfers (xs @ ys) = interrupt_transfers xs @ interrupt_transfers ys"
  by (induction xs rule: interrupt_transfers.induct) simp_all

lemma hmcfgusb_send_trace:
  "trace (snd (hmcfgusb_send send_data len done err1 err2 w)) =
     trace w
     @ (if debug w \<noteq> 0 then [Ev_hexdump send_data len ''USB < ''] else [])
     @ (if err1 = 0 \<and> done \<noteq> 0
        then [Ev_interrupt_transfer (usb_devh (dev w)) EP_OUT send_data len USB_TIMEOUT err1,
              Ev_interrupt_transfer (usb_devh (dev w)) EP_OUT send_data 0 USB_TIMEOUT err2]
        else [Ev_interrupt_transfer (usb_devh (dev w)) EP_OUT send_data len USB_TIMEOUT err1])
     @ (if err1 \<noteq> 0 \<or> done \<noteq> 0 \<and> err2 \<noteq> 0 then [Ev_stderr ''Can't send data''] else [])"
  by (simp add: hmcfgusb_send_def Let_def)

text \<open>
  C7. A send call makes one outbound transfer of the given buffer and length on the OUT
  endpoint and, only when that succeeds and finalize (\<open>done\<close>) is requested, one more
  transfer of length zero right after it; it makes no other transfer. It returns 1
  (success) exactly when the first transfer succeeds and, if finalize is requested, the
  zero-length terminator succeeds as well; otherwise it returns 0. So a successful first
  transfer followed by a failed terminator is a failure. (\<open>err1\<close> and \<open>err2\<close> are the
  results of the two transfers, as recorded with them in the trace.)
\<close>

theorem hmcfgusb_send_success_iff:
  "(fst (hmcfgusb_send send_data len done err1 err2 w) = 1
      \<longleftrightarrow> err1 = 0 \<and> (done \<noteq> 0 \<longrightarrow> err2 = 0))
   \<and> (fst (hmcfgusb_send send_data len done err1 err2 w) \<noteq> 1
      \<longrightarrow> fst (hmcfgusb_send send_data len done err1 err2 w) = 0)
   \<and> interrupt_transfers (trace (snd (hmcfgusb_send send_data len done err1 err2 w))) =
       interrupt_transfers (trace w)
       @ (if err1 = 0 \<and> done \<noteq> 0
          then [Ev_interrupt_transfer (usb_devh (dev w)) EP_OUT send_data len USB_TIMEOUT err1,
                Ev_interrupt_transfer (usb_devh (dev w)) EP_OUT send_data 0 USB_TIMEOUT err2]
          else [Ev_interrupt_transfer (usb_devh (dev w)) EP_OUT send_data len USB_TIMEOUT err1])
   \<and> (err1 = 0 \<and> done \<noteq> 0 \<longrightarrow>
        (\<exists>pre post. trace (snd (hmcfgusb_send send_data len done err1 err2 w)) =
           trace w @ pre
           @ [Ev_interrupt_transfer (usb_devh (dev w)) EP_OUT send_data len USB_TIMEOUT err1,
              Ev_interrupt_transfer (usb_devh (dev w)) EP_OUT send_data 0 USB_TIMEOUT err2]
           @ post))"
proof -
  have r: "(fst (hmcfgusb_send send_data len done err1 err2 w) = 1
      \<longleftrightarrow> err1 = 0 \<and> (done \<noteq> 0 \<longrightarrow> err2 = 0))
   \<and> (fst (hmcfgusb_send send_data len done err1 err2 w) \<noteq> 1
      \<longrightarrow> fst (hmcfgusb_send send_data len done err1 err2 w) = 0)"
    by (simp add: hmcfgusb_send_def Let_def)
  have t: "interrupt_transfers (trace (snd (hmcfgusb_send send_data len done err1 err2 w))) =
       interrupt_transfers (trace w)
       @ (if err1 = 0 \<and> done \<noteq> 0
          then [Ev_interrupt_transfer (usb_devh (dev w)) EP_OUT send_data len USB_TIMEOUT err1,
                Ev_interrupt_transfer (usb_devh (dev w)) EP_OUT send_data 0 USB_TIMEOUT err2]
          else [Ev_interrupt_transfer (usb_devh (dev w)) EP_OUT send_data len USB_TIMEOUT err1])"
    by (simp add: hmcfgusb_send_trace)
  have a: "err1 = 0 \<and> done \<noteq> 0 \<longrightarrow>
        (\<exists>pre post. trace (snd (hmcfgusb_send send_data len done err1 err2 w)) =
           trace w @ pre
           @ [Ev_interrupt_transfer (usb_devh (dev w)) EP_OUT send_data len USB_TIMEOUT err1,
              Ev_interrupt_transfer (usb_devh (dev w)) EP_OUT send_data 0 USB_TIMEOUT err2]
           @ post)"
  proof
    assume h: "err1 = 0 \<and> done \<noteq> 0"
    show "\<exists>pre post. trace (snd (hmcfgusb_send send_data len done err1 err2 w)) =
           trace w @ pre
           @ [Ev_interrupt_transfer (usb_devh (dev w)) EP_OUT send_data len USB_TIMEOUT err1,
              Ev_interrupt_transfer (usb_devh (dev w)) EP_OUT send_data 0 USB_TIMEOUT err2]
           @ post"
      apply (rule exI [of _ "if debug w \<noteq> 0 then [Ev_hexdump send_data len ''USB < ''] else []"])
      apply (rule exI [of _ "if err1 \<noteq> 0 \<or> done \<noteq> 0 \<and> err2 \<noteq> 0 then [Ev_stderr ''Can't send data''] else []"])
      using h by (simp add: hmcfgusb_send_trace)
  qed
  show ?thesis using r t a by blast
qed

text \<open>Scenario C of the spec: the data transfer succeeds, the terminator fails with -7.\<close>

theorem hmcfgusb_send_success_iff_witness:
  "(1 :: int) \<noteq> 0
   \<and> fst (hmcfgusb_send [1, 2, 3] 3 1 0 (- 7) (example_world 0)) = 0
   \<and> interrupt_transfers (trace (snd (hmcfgusb_send [1, 2, 3] 3 1 0 (- 7) (example_world 0))))
       = [Ev_interrupt_transfer 1 2 [1, 2, 3] 3 10000 0, Ev_interrupt_transfer 1 2 [1, 2, 3] 0 10000 (- 7)]"
proof -
  have d: "usb_devh (dev (example_world 0)) = 1" "trace (example_world 0) = []"
    by (simp_all add: example_world_def example_dev_def)
  show ?thesis
    using hmcfgusb_send_success_iff [of "[1, 2, 3]" 3 1 0 "- 7" "example_world 0"] d
    by (simp add: EP_OUT_def USB_TIMEOUT_def)
qed

text \<open>
  C9. A send call, successful or not, leaves the process-wide quit/error flag as it
  was: a send failure is reported through the return value only.
\<close>

theorem hmcfgusb_send_keeps_quit:
  "quit (snd (hmcfgusb_send send_data len done err1 err2 w)) = quit w"
  by (simp add: hmcfgusb_send_def Let_def)

theorem hmcfgusb_send_keeps_quit_witness:
  "quit (snd (hmcfgusb_send [1, 2, 3] 3 1 (- 1) 0 (example_world 0))) = 0"
  using hmcfgusb_send_keeps_quit [of "[1, 2, 3]" 3 1 "- 1" 0 "example_world 0"]
  by (simp add: example_world_def)

subsection \<open>Registering a descriptor\<close>

lemma replicate_update_last:
  "(replicate (Suc m) x)[m := v] = replicate m x @ [v]"
  by (induction m) simp_all

text \<open>
  C8. A successful \<open>hmcfgusb_add_pfd\<close> (return value 1) on a handle whose list holds
  at most \<open>n_pfd\<close> entries leaves a list of \<open>n_pfd + 1\<close> entries whose last entry is
  the new one (descriptor, interest mask, \<open>revents\<close> 0) and which starts with the old
  entries, each with its value and at its position. On a consistent handle the new list
  is exactly the old list followed by the new entry, and the handle stays consistent.
  The count of libusb's own entries is unchanged and the total count has grown by one.
\<close>

theorem hmcfgusb_add_pfd_appends:
  assumes "int (length (pfd_entries (dev w))) \<le> n_pfd (dev w)" and "n_pfd (dev w) < INT_MAX"
    and "fst (hmcfgusb_add_pfd fdv ev junk ok w) = 1"
  shows "(\<exists>ys. pfd (dev (snd (hmcfgusb_add_pfd fdv ev junk ok w))) = Some ys
           \<and> int (length ys) = n_pfd (dev w) + 1
           \<and> last ys = \<lparr>fd = fdv, events = ev, revents = 0\<rparr>
           \<and> take (length (pfd_entries (dev w))) ys = pfd_entries (dev w)
           \<and> (wf_dev (dev w) \<longrightarrow> ys = pfd_entries (dev w) @ [\<lparr>fd = fdv, events = ev, revents = 0\<rparr>]))
       \<and> n_usb_pfd (dev (snd (hmcfgusb_add_pfd fdv ev junk ok w))) = n_usb_pfd (dev w)
       \<and> n_pfd (dev (snd (hmcfgusb_add_pfd fdv ev junk ok w))) = n_pfd (dev w) + 1
       \<and> (wf_dev (dev w) \<longrightarrow> wf_dev (dev (snd (hmcfgusb_add_pfd fdv ev junk ok w))))"
proof -
  define old where "old = pfd_entries (dev w)"
  define m where "m = nat (n_pfd (dev w)) - length old"
  define new where "new = \<lparr>fd = fdv, events = ev, revents = 0\<rparr>"
  have le: "int (length old) \<le> n_pfd (dev w)" using assms(1) by (simp add: old_def)
  then have n: "nat (n_pfd (dev w)) = length old + m" by (simp add: m_def)
  have n1: "nat (n_pfd (dev w) + 1) = Suc (length old + m)" using le n by linarith
  from assms(3) have ok: ok
    by (auto simp: hmcfgusb_add_pfd_def realloc_pfd_def Let_def split: if_splits)
  have re: "realloc_pfd (pfd (dev w)) (n_pfd (dev w) + 1) junk ok = Some (old @ replicate (Suc m) junk)"
    using ok by (simp add: realloc_pfd_def Let_def n1 old_def pfd_entries_def)
  have upd: "(old @ replicate (Suc m) junk)[length old + m :=
                ((old @ replicate (Suc m) junk) ! (length old + m))\<lparr>fd := fdv, events := ev, revents := 0\<rparr>]
             = old @ replicate m junk @ [new]"
    by (simp add: list_update_append replicate_update_last new_def del: replicate_Suc)
  have res: "pfd (dev (snd (hmcfgusb_add_pfd fdv ev junk ok w))) = Some (old @ replicate m junk @ [new])"
    using re upd by (simp add: hmcfgusb_add_pfd_def Let_def n)
  have wfm: "wf_dev (dev w) \<Longrightarrow> m = 0"
    by (auto simp: wf_dev_def m_def old_def pfd_entries_def split: option.splits)
  have 1: "\<exists>ys. pfd (dev (snd (hmcfgusb_add_pfd fdv ev junk ok w))) = Some ys
           \<and> int (length ys) = n_pfd (dev w) + 1
           \<and> last ys = \<lparr>fd = fdv, events = ev, revents = 0\<rparr>
           \<and> take (length (pfd_entries (dev w))) ys = pfd_entries (dev w)
           \<and> (wf_dev (dev w) \<longrightarrow> ys = pfd_entries (dev w) @ [\<lparr>fd = fdv, events = ev, revents = 0\<rparr>])"
    using res n le wfm by (auto simp: old_def [symmetric] new_def [symmetric])
  have 2: "n_usb_pfd (dev (snd (hmcfgusb_add_pfd fdv ev junk ok w))) = n_usb_pfd (dev w)"
    using re by (simp add: hmcfgusb_add_pfd_def Let_def)
  have 3: "n_pfd (dev (snd (hmcfgusb_add_pfd fdv ev junk ok w))) = n_pfd (dev w) + 1"
    using re by (simp add: hmcfgusb_add_pfd_def Let_def)
  have 4: "wf_dev (dev w) \<longrightarrow> wf_dev (dev (snd (hmcfgusb_add_pfd fdv ev junk ok w)))"
  proof
    assume wf: "wf_dev (dev w)"
    then have "m = 0" by (rule wfm)
    then show "wf_dev (dev (snd (hmcfgusb_add_pfd fdv ev junk ok w)))"
      using wf re upd n le
      by (auto simp: hmcfgusb_add_pfd_def Let_def wf_dev_def old_def pfd_entries_def split: option.splits)
  qed
  show ?thesis using 1 2 3 4 by blast
qed

theorem hmcfgusb_add_pfd_appends_witness:
  "int (length (pfd_entries (dev (example_world 0)))) \<le> n_pfd (dev (example_world 0))
   \<and> n_pfd (dev (example_world 0)) < INT_MAX
   \<and> wf_dev (dev (example_world 0))
   \<and> fst (hmcfgusb_add_pfd 9 1 \<lparr>fd = 0, events = 0, revents = 0\<rparr> True (example_world 0)) = 1
   \<and> pfd (dev (snd (hmcfgusb_add_pfd 9 1 \<lparr>fd = 0, events = 0, revents = 0\<rparr> True (example_world 0))))
       = Some [\<lparr>fd = 3, events = 1, revents = 0\<rparr>, \<lparr>fd = 7, events = 1, revents = 0\<rparr>,
               \<lparr>fd = 9, events = 1, revents = 0\<rparr>]
   \<and> n_usb_pfd (dev (snd (hmcfgusb_add_pfd 9 1 \<lparr>fd = 0, events = 0, revents = 0\<rparr> True (example_world 0)))) = 1"
proof -
  have wf: "wf_dev (dev (example_world 0))"
    by (simp add: example_world_def example_dev_def wf_dev_def)
  have xs: "pfd_entries (dev (example_world 0))
              = [\<lparr>fd = 3, events = 1, revents = 0\<rparr>, \<lparr>fd = 7, events = 1, revents = 0\<rparr>]"
    by (simp add: example_world_def example_dev_def pfd_entries_def)
  have le: "int (length (pfd_entries (dev (example_world 0)))) \<le> n_pfd (dev (example_world 0))"
    by (simp add: example_world_def example_dev_def pfd_entries_def)
  have lt: "n_pfd (dev (example_world 0)) < INT_MAX"
    by (simp add: example_world_def example_dev_def INT_MAX_def)
  have ok: "fst (hmcfgusb_add_pfd 9 1 \<lparr>fd = 0, events = 0, revents = 0\<rparr> True (example_world 0)) = 1"
    by (simp add: hmcfgusb_add_pfd_def realloc_pfd_def Let_def)
  have nu: "n_usb_pfd (dev (example_world 0)) = 1"
    by (simp add: example_world_def example_dev_def)
  show ?thesis
    using hmcfgusb_add_pfd_appends [OF le lt ok] wf le lt ok nu xs by auto
qed

text \<open>
  C10. A \<open>hmcfgusb_add_pfd\<close> call whose \<open>realloc\<close> fails returns 0 (failure); it has
  nevertheless incremented the total count and has replaced the list pointer by
  \<open>NULL\<close>. The count, now positive, no longer matches the list, which has no entries:
  the handle is not consistent any more. The call returns 0 in no other case: when
  \<open>realloc\<close> succeeds it returns 1.
\<close>

theorem hmcfgusb_add_pfd_failure:
  assumes "0 \<le> n_pfd (dev w)" and "n_pfd (dev w) < INT_MAX"
  shows "(\<not> ok \<longrightarrow>
            fst (hmcfgusb_add_pfd fdv ev junk ok w) = 0
          \<and> n_pfd (dev (snd (hmcfgusb_add_pfd fdv ev junk ok w))) = n_pfd (dev w) + 1
          \<and> pfd (dev (snd (hmcfgusb_add_pfd fdv ev junk ok w))) = None
          \<and> int (length (pfd_entries (dev (snd (hmcfgusb_add_pfd fdv ev junk ok w)))))
              \<noteq> n_pfd (dev (snd (hmcfgusb_add_pfd fdv ev junk ok w)))
          \<and> \<not> wf_dev (dev (snd (hmcfgusb_add_pfd fdv ev junk ok w)))
          \<and> \<not> pfd_in_bounds (dev (snd (hmcfgusb_add_pfd fdv ev junk ok w))))
       \<and> (fst (hmcfgusb_add_pfd fdv ev junk ok w) = 0 \<longrightarrow> \<not> ok)
       \<and> (ok \<longrightarrow> fst (hmcfgusb_add_pfd fdv ev junk ok w) = 1)"
proof -
  have 1: "\<not> ok \<longrightarrow>
            fst (hmcfgusb_add_pfd fdv ev junk ok w) = 0
          \<and> n_pfd (dev (snd (hmcfgusb_add_pfd fdv ev junk ok w))) = n_pfd (dev w) + 1
          \<and> pfd (dev (snd (hmcfgusb_add_pfd fdv ev junk ok w))) = None
          \<and> int (length (pfd_entries (dev (snd (hmcfgusb_add_pfd fdv ev junk ok w)))))
              \<noteq> n_pfd (dev (snd (hmcfgusb_add_pfd fdv ev junk ok w)))
          \<and> \<not> wf_dev (dev (snd (hmcfgusb_add_pfd fdv ev junk ok w)))
          \<and> \<not> pfd_in_bounds (dev (snd (hmcfgusb_add_pfd fdv ev junk ok w)))"
    using assms(1)
    by (simp add: hmcfgusb_add_pfd_def realloc_pfd_def Let_def wf_dev_def pfd_in_bounds_def pfd_entries_def)
  have 2: "ok \<longrightarrow> fst (hmcfgusb_add_pfd fdv ev junk ok w) = 1"
    by (simp add: hmcfgusb_add_pfd_def realloc_pfd_def Let_def)
  then have 3: "fst (hmcfgusb_add_pfd fdv ev junk ok w) = 0 \<longrightarrow> \<not> ok" by auto
  show ?thesis using 1 2 3 by blast
qed

theorem hmcfgusb_add_pfd_failure_witness:
  "0 \<le> n_pfd (dev (example_world 0))
   \<and> n_pfd (dev (example_world 0)) < INT_MAX
   \<and> \<not> False
   \<and> fst (hmcfgusb_add_pfd 9 1 \<lparr>fd = 0, events = 0, revents = 0\<rparr> False (example_world 0)) = 0
   \<and> n_pfd (dev (snd (hmcfgusb_add_pfd 9 1 \<lparr>fd = 0, events = 0, revents = 0\<rparr> False (example_world 0)))) = 3
   \<and> pfd (dev (snd (hmcfgusb_add_pfd 9 1 \<lparr>fd = 0, events = 0, revents = 0\<rparr> False (example_world 0)))) = None"
proof -
  have nn: "0 \<le> n_pfd (dev (example_world 0))"
    by (simp add: example_world_def example_dev_def)
  have lt: "n_pfd (dev (example_world 0)) < INT_MAX"
    by (simp add: example_world_def example_dev_def INT_MAX_def)
  have n: "n_pfd (dev (example_world 0)) = 2"
    by (simp add: example_world_def example_dev_def)
  show ?thesis
    using hmcfgusb_add_pfd_failure [OF nn lt, of False 9 1 "\<lparr>fd = 0, events = 0, revents = 0\<rparr>"] nn lt n
    by simp
qed

subsection \<open>The completion callback\<close>

lemma interrupt_quit:
  "quit (hmcfgusb_interrupt t e w) = quit w \<or> quit (hmcfgusb_interrupt t e w) = EIO"
  by (simp add: hmcfgusb_interrupt_def Let_def resubmit_fields split: option.splits)

lemma interrupt_trace:
  "\<exists>es. trace (hmcfgusb_interrupt t e w) = trace w @ es \<and> poll_timeouts es = []"
proof -
  have a: "\<exists>es. trace (free_dev_transfer c w1) = trace w @ es \<and> poll_timeouts es = []"
    if "\<exists>es. trace w1 = trace w @ es \<and> poll_timeouts es = []" for c w1
    using that free_dev_transfer_trace [of c w1] by auto
  show ?thesis
    by (auto simp: hmcfgusb_interrupt_def Let_def resubmit_fields intro!: a split: option.splits)
qed

text \<open>
  The two fatal paths that the callback handles alike: a status other than completed
  or timed out, and a buffer the consumer rejects. Both set \<open>quit\<close> to \<open>EIO\<close>, free
  the handle's transfer and clear the slot.
\<close>

lemma interrupt_fatal_status:
  assumes "status t \<noteq> LIBUSB_TRANSFER_COMPLETED" and "status t \<noteq> LIBUSB_TRANSFER_TIMED_OUT"
  shows "quit (hmcfgusb_interrupt t e w) = EIO"
    and "user_data t = Some c \<Longrightarrow> cbd_dev c \<Longrightarrow> transfer (dev w) = Some a \<Longrightarrow>
           xfers (hmcfgusb_interrupt t e w) a = None \<and> transfer (dev (hmcfgusb_interrupt t e w)) = None"
  using assms by (simp_all add: hmcfgusb_interrupt_def free_dev_transfer_frees)

lemma interrupt_rejected:
  assumes "status t = LIBUSB_TRANSFER_COMPLETED" and "user_data t = Some c" and "cbd_cb c = Some cb"
    and "cb (buffer t) (actual_length t) (cbd_data c) = 0"
  shows "quit (hmcfgusb_interrupt t e w) = EIO"
    and "cbd_dev c \<Longrightarrow> transfer (dev w) = Some a \<Longrightarrow>
           xfers (hmcfgusb_interrupt t e w) a = None \<and> transfer (dev (hmcfgusb_interrupt t e w)) = None"
  using assms by (simp_all add: hmcfgusb_interrupt_def free_dev_transfer_frees Let_def)

text \<open>
  The third path, a resubmission that fails, frees the transfer but assigns neither
  \<open>quit\<close> nor the handle's slot.
\<close>

lemma interrupt_resubmit_failed:
  assumes "status t = LIBUSB_TRANSFER_TIMED_OUT
           \<or> status t = LIBUSB_TRANSFER_COMPLETED \<and>
              (\<forall>c cb. user_data t = Some c \<and> cbd_cb c = Some cb
                  \<longrightarrow> cb (buffer t) (actual_length t) (cbd_data c) \<noteq> 0)"
    and "e \<noteq> 0"
  shows "quit (hmcfgusb_interrupt t e w) = quit w
       \<and> xfers (hmcfgusb_interrupt t e w) (t_self t) = None
       \<and> dev (hmcfgusb_interrupt t e w) = dev w"
  using assms by (auto simp: hmcfgusb_interrupt_def Let_def resubmit_fields split: option.splits)

text \<open>
  C1. The claim: whenever the callback takes the engine from ARMED to DEAD, by a bad
  status, a rejected buffer or a failed resubmission, \<open>quit\<close> becomes nonzero and the
  outstanding transfer is released. Evaluated on the code for a failed resubmission:
  the engine is ARMED, its transfer completes with success, the consumer accepts the
  buffer, and \<open>libusb_submit_transfer\<close> returns -4. Afterwards the engine is DEAD and
  the transfer object is freed, but \<open>quit\<close> is still 0 and the handle still names the
  freed object.
\<close>

theorem resubmit_failure_leaves_quit_clear:
  "engine_state (example_world 0) = ARMED
   \<and> quit (complete_transfer (example_transfer LIBUSB_TRANSFER_COMPLETED) (- 4) (example_world 0)) = 0
   \<and> engine_state (complete_transfer (example_transfer LIBUSB_TRANSFER_COMPLETED) (- 4) (example_world 0)) = DEAD
   \<and> xfers (complete_transfer (example_transfer LIBUSB_TRANSFER_COMPLETED) (- 4) (example_world 0)) 2 = None
   \<and> transfer (dev (complete_transfer (example_transfer LIBUSB_TRANSFER_COMPLETED) (- 4) (example_world 0))) = Some 2"
  by (simp add: example_defs complete_transfer_def hmcfgusb_interrupt_def Let_def resubmit_fields
      engine_state_def)

text \<open>
  C3, as amended. A completion with status timed out never invokes the consumer
  callback: all the callback does first is to hand the same transfer object to
  \<open>libusb_submit_transfer\<close> again, and nothing after that is a consumer call. When
  that resubmission succeeds, \<open>quit\<close> and the handle are unchanged and the transfer
  is in flight again: the engine stays ARMED. When it fails, the transfer object is
  freed.
\<close>

theorem timed_out_completion:
  assumes "status t = LIBUSB_TRANSFER_TIMED_OUT"
  shows "(\<exists>es. trace (hmcfgusb_interrupt t e w) = trace w @ Ev_submit (t_self t) e # es
              \<and> consumer_calls es = [])
       \<and> (e = 0 \<longrightarrow> quit (hmcfgusb_interrupt t e w) = quit w
                  \<and> dev (hmcfgusb_interrupt t e w) = dev w
                  \<and> xfers (hmcfgusb_interrupt t e w) (t_self t) = Some In_flight
                  \<and> (transfer (dev w) = Some (t_self t)
                       \<longrightarrow> engine_state (hmcfgusb_interrupt t e w) = ARMED))
       \<and> (e \<noteq> 0 \<longrightarrow> xfers (hmcfgusb_interrupt t e w) (t_self t) = None)"
  using assms
  by (simp add: hmcfgusb_interrupt_def Let_def resubmit_fields engine_state_def)

theorem timed_out_completion_witness:
  "status (example_transfer LIBUSB_TRANSFER_TIMED_OUT) = LIBUSB_TRANSFER_TIMED_OUT
   \<and> transfer (dev (example_world 0)) = Some (t_self (example_transfer LIBUSB_TRANSFER_TIMED_OUT))
   \<and> quit (hmcfgusb_interrupt (example_transfer LIBUSB_TRANSFER_TIMED_OUT) 0 (example_world 0)) = 0
   \<and> engine_state (hmcfgusb_interrupt (example_transfer LIBUSB_TRANSFER_TIMED_OUT) 0 (example_world 0)) = ARMED"
proof -
  have st: "status (example_transfer LIBUSB_TRANSFER_TIMED_OUT) = LIBUSB_TRANSFER_TIMED_OUT"
    by (simp add: example_transfer_def)
  have tr: "transfer (dev (example_world 0)) = Some (t_self (example_transfer LIBUSB_TRANSFER_TIMED_OUT))"
    by (simp add: example_world_def example_dev_def example_transfer_def)
  have q: "quit (example_world 0) = 0"
    by (simp add: example_world_def)
  show ?thesis
    using timed_out_completion [OF st, of 0 "example_world 0"] st tr q by simp
qed

text \<open>
  The claim as stated fails: the engine is ARMED, its transfer completes with status
  timed out, and the resubmission fails with -4. The transfer is freed and the engine
  is not ARMED afterwards.
\<close>

theorem timed_out_resubmit_failure_not_armed:
  "status (example_transfer LIBUSB_TRANSFER_TIMED_OUT) = LIBUSB_TRANSFER_TIMED_OUT
   \<and> engine_state (example_world 0) = ARMED
   \<and> engine_state (complete_transfer (example_transfer LIBUSB_TRANSFER_TIMED_OUT) (- 4) (example_world 0)) \<noteq> ARMED"
  by (simp add: example_defs complete_transfer_def hmcfgusb_interrupt_def Let_def resubmit_fields
      engine_state_def)

subsection \<open>The wait operation\<close>

lemma complete_transfer_quit:
  "quit (complete_transfer t e w) = quit w \<or> quit (complete_transfer t e w) = EIO"
  using interrupt_quit [of t e "w\<lparr>xfers := (xfers w)(t_self t \<mapsto> Idle)\<rparr>"]
  by (simp add: complete_transfer_def)

lemma complete_transfer_trace:
  "\<exists>es. trace (complete_transfer t e w) = trace w @ es \<and> poll_timeouts es = []"
  using interrupt_trace [of t e "w\<lparr>xfers := (xfers w)(t_self t \<mapsto> Idle)\<rparr>"]
  by (simp add: complete_transfer_def)

lemma run_completions_quit:
  "quit (run_completions cs w) = quit w \<or> quit (run_completions cs w) = EIO"
proof (induction cs arbitrary: w)
  case Nil
  show ?case by simp
next
  case (Cons c cs)
  obtain t e where c: "c = (t, e)" by (cases c)
  show ?case
    using Cons.IH [of "complete_transfer t e w"] Cons.IH [of w] complete_transfer_quit [of t e w]
    by (auto simp: c)
qed

lemma run_completions_trace:
  "\<exists>es. trace (run_completions cs w) = trace w @ es \<and> poll_timeouts es = []"
proof (induction cs arbitrary: w)
  case Nil
  show ?case by simp
next
  case (Cons c cs)
  obtain t e where c: "c = (t, e)" by (cases c)
  show ?case
  proof (cases "xfers w (t_self t) = Some In_flight")
    case True
    obtain es1 where 1: "trace (complete_transfer t e w) = trace w @ es1" "poll_timeouts es1 = []"
      using complete_transfer_trace by blast
    obtain es2 where 2: "trace (run_completions cs (complete_transfer t e w))
        = trace (complete_transfer t e w) @ es2" "poll_timeouts es2 = []"
      using Cons.IH by blast
    have "trace (run_completions (c # cs) w) = trace w @ (es1 @ es2)"
      using True 1 2 by (simp add: c)
    moreover have "poll_timeouts (es1 @ es2) = []" using 1 2 by simp
    ultimately show ?thesis by blast
  next
    case False
    then show ?thesis using Cons.IH [of w] by (simp add: c)
  qed
qed

lemma handle_events_quit:
  "quit (libusb_handle_events_timeout_completed cs w) = quit w
   \<or> quit (libusb_handle_events_timeout_completed cs w) = EIO"
  using run_completions_quit [of cs "emit Ev_handle_events w"]
  by (simp add: libusb_handle_events_timeout_completed_def)

lemma handle_events_trace:
  "\<exists>es. trace (libusb_handle_events_timeout_completed cs w) = trace w @ Ev_handle_events # es
        \<and> poll_timeouts es = []"
  using run_completions_trace [of cs "emit Ev_handle_events w"]
  by (auto simp: libusb_handle_events_timeout_completed_def)

lemma poll_finish_fields:
  "fst (poll_finish w) = - 1"
  "quit (snd (poll_finish w)) = quit w"
  "errno (snd (poll_finish w)) = quit w"
  "dev (snd (poll_finish w)) = dev w"
  "\<exists>es. trace (snd (poll_finish w)) = trace w @ es \<and> poll_timeouts es = [] \<and> consumer_calls es = []"
  by (simp_all add: poll_finish_def Let_def)

lemma poll_service_quit:
  "quit (snd (poll_service env w)) = quit w \<or> quit (snd (poll_service env w)) = EIO"
  using handle_events_quit [of "completions env" w]
  by (auto simp: poll_service_def Let_def poll_finish_fields)

lemma poll_service_trace:
  "\<exists>es. trace (snd (poll_service env w)) = trace w @ Ev_handle_events # es \<and> poll_timeouts es = []"
proof -
  obtain es where es: "trace (libusb_handle_events_timeout_completed (completions env) w)
      = trace w @ Ev_handle_events # es" "poll_timeouts es = []"
    using handle_events_trace by blast
  obtain fs where fs: "trace (snd (poll_finish (libusb_handle_events_timeout_completed (completions env) w)))
      = trace (libusb_handle_events_timeout_completed (completions env) w) @ fs" "poll_timeouts fs = []"
    using poll_finish_fields(5) by blast
  show ?thesis
  proof (cases "handle_events_err env < 0")
    case True
    then have "trace (snd (poll_service env w))
        = trace w @ Ev_handle_events # (es @ [Ev_stderr ''libusb_handle_events_timeout_completed''])"
      using es by (simp add: poll_service_def Let_def)
    moreover have "poll_timeouts (es @ [Ev_stderr ''libusb_handle_events_timeout_completed'']) = []"
      using es by simp
    ultimately show ?thesis by blast
  next
    case False
    then have "trace (snd (poll_service env w)) = trace w @ Ev_handle_events # (es @ fs)"
      using es fs by (simp add: poll_service_def Let_def)
    moreover have "poll_timeouts (es @ fs) = []" using es fs by simp
    ultimately show ?thesis by blast
  qed
qed

lemma poll_service_reports:
  assumes "0 \<le> handle_events_err env"
  shows "fst (poll_service env w) = - 1
       \<and> errno (snd (poll_service env w)) = quit (snd (poll_service env w))"
  using assms by (simp add: poll_service_def Let_def poll_finish_fields)

lemma length_poll_store [simp]: "length (poll_store rv i ys) = length ys"
  by (induction ys arbitrary: i) simp_all

lemma scan_poll_store_first_ready:
  assumes "i \<le> k" and "k < i + length ys" and "rv k \<noteq> 0"
    and "\<forall>j. i \<le> j \<and> j < k \<longrightarrow> rv j = 0" and "n_usb \<le> int k"
  shows "scan_pfd n_usb (int i) (poll_store rv i ys) = Return_fd (fd (ys ! (k - i)))"
  using assms
proof (induction ys arbitrary: i)
  case Nil
  then show ?case by simp
next
  case (Cons p ps)
  show ?case
  proof (cases "i = k")
    case True
    then show ?thesis using Cons.prems by simp
  next
    case False
    then have lt: "i < k" using Cons.prems(1) by simp
    then have z: "rv i = 0" using Cons.prems(4) by simp
    have ih: "scan_pfd n_usb (int (Suc i)) (poll_store rv (Suc i) ps) = Return_fd (fd (ps ! (k - Suc i)))"
      using Cons.prems lt by (intro Cons.IH) auto
    have nth: "(p # ps) ! (k - i) = ps ! (k - Suc i)"
      using lt by (simp add: nth_Cons')
    have s: "int i + 1 = int (Suc i)" by simp
    show ?thesis using z ih nth by (simp add: s del: of_nat_Suc)
  qed
qed

lemma scan_poll_store_no_caller:
  assumes "\<forall>j. nat n_usb \<le> j \<longrightarrow> rv j = 0"
  shows "scan_pfd n_usb (int i) (poll_store rv i ys) \<noteq> Return_fd f"
  using assms
proof (induction ys arbitrary: i)
  case Nil
  show ?case by simp
next
  case (Cons p ps)
  have s: "int i + 1 = int (Suc i)" by simp
  show ?case
  proof (cases "rv i = 0")
    case True
    then show ?thesis using Cons.IH [of "Suc i"] Cons.prems by (simp add: s del: of_nat_Suc)
  next
    case False
    then have "\<not> nat n_usb \<le> i" using Cons.prems by blast
    then have "int i < n_usb" by simp
    then show ?thesis using False by simp
  qed
qed


lemma poll_step_fields:
  "quit (poll_step s env w) = quit w"
  "errno (poll_step s env w) = errno w"
  "xfers (poll_step s env w) = xfers w"
  "\<exists>p n k. trace (poll_step s env w) = trace w @ [Ev_poll p n (c_int (s * 1000)) k]"
  "n_pfd (dev (poll_step s env w)) = n_pfd (dev w)"
  "n_usb_pfd (dev (poll_step s env w)) = n_usb_pfd (dev w)"
  by (simp_all add: poll_step_def Let_def)

lemma poll_step_pfd:
  assumes "wf_dev (dev w)" and "pfd (dev w) = Some xs"
  shows "pfd (dev (poll_step s env w))
           = Some (poll_store (poll_revents env) 0 (map (\<lambda>p. p\<lparr>revents := 0\<rparr>) xs))"
proof -
  have "int (length xs) = n_pfd (dev w)"
    using assms by (simp add: wf_dev_def)
  then have len: "nat (n_pfd (dev w)) = length xs" by linarith
  show ?thesis
    using assms(2) by (simp add: poll_step_def Let_def clear_revents_def poll_write_def len)
qed

lemma poll_dispatch_quit:
  "quit (snd (poll_dispatch env w)) = quit w \<or> quit (snd (poll_dispatch env w)) = EIO"
  using poll_service_quit [of env w]
  by (auto simp: poll_dispatch_def Let_def poll_finish_fields split: scan_result.splits)

lemma poll_dispatch_trace:
  "\<exists>es. trace (snd (poll_dispatch env w)) = trace w @ es \<and> poll_timeouts es = []"
proof -
  obtain es where "trace (snd (poll_service env w)) = trace w @ Ev_handle_events # es" "poll_timeouts es = []"
    using poll_service_trace by blast
  then have s: "\<exists>es. trace (snd (poll_service env w)) = trace w @ es \<and> poll_timeouts es = []"
    by (intro exI [of _ "Ev_handle_events # es"]) simp
  have f: "\<exists>es. trace (snd (poll_finish w)) = trace w @ es \<and> poll_timeouts es = []"
    using poll_finish_fields(5) [of w] by blast
  show ?thesis
    using s f by (auto simp: poll_dispatch_def Let_def split: scan_result.splits)
qed

lemma poll_dispatch_reports:
  assumes "0 \<le> poll_ret env" and "0 \<le> handle_events_err env"
    and "\<forall>f. scan_pfd (n_usb_pfd (dev w)) 0
              (take (nat (n_pfd (dev w))) (pfd_entries (dev w))) \<noteq> Return_fd f"
  shows "fst (poll_dispatch env w) = - 1
       \<and> errno (snd (poll_dispatch env w)) = quit (snd (poll_dispatch env w))"
  using assms poll_service_reports [of env w]
  by (auto simp: poll_dispatch_def Let_def poll_finish_fields split: scan_result.splits)

lemma poll_dispatch_caller_fd:
  assumes "0 < poll_ret env"
    and "scan_pfd (n_usb_pfd (dev w)) 0
           (take (nat (n_pfd (dev w))) (pfd_entries (dev w))) = Return_fd f"
  shows "poll_dispatch env w = (f, w\<lparr>errno := 0\<rparr>)"
  using assms by (simp add: poll_dispatch_def Let_def)

text \<open>The three ways a wait call can go.\<close>

lemma hmcfgusb_poll_timeout_error:
  "next_timeout_err env < 0 \<Longrightarrow>
     hmcfgusb_poll timeout env w
       = Some (- 1, (emit (Ev_stderr ''libusb_get_next_timeout'') (w\<lparr>errno := 0\<rparr>))\<lparr>errno := EIO\<rparr>)"
  by (simp add: hmcfgusb_poll_def Let_def)

lemma hmcfgusb_poll_zero_timer:
  "0 < next_timeout_err env \<Longrightarrow> next_timeout_tv env = (0, 0) \<Longrightarrow>
     hmcfgusb_poll timeout env w = Some (poll_service env (w\<lparr>errno := 0\<rparr>))"
  by (simp add: hmcfgusb_poll_def Let_def)

lemma hmcfgusb_poll_polling:
  assumes "0 \<le> next_timeout_err env"
    and "next_timeout_err env = 0 \<or> next_timeout_tv env \<noteq> (0, 0)"
  shows "hmcfgusb_poll timeout env w =
      (if pfd_in_bounds (dev w)
       then Some (poll_dispatch env
                    (poll_step (if next_timeout_err env = 0 then timeout else fst (next_timeout_tv env))
                       env (w\<lparr>errno := 0\<rparr>)))
       else None)"
proof (cases "next_timeout_err env = 0")
  case True
  then show ?thesis by (simp add: hmcfgusb_poll_def Let_def)
next
  case False
  then have ue: "(fst (next_timeout_tv env) = 0 \<and> snd (next_timeout_tv env) = 0) = False"
    using assms(2) by (auto simp: prod_eq_iff)
  show ?thesis
    using False assms(1) by (simp add: hmcfgusb_poll_def Let_def ue)
qed

lemma hmcfgusb_poll_quit:
  assumes "hmcfgusb_poll timeout env w = Some (r, w')"
  shows "quit w' = quit w \<or> quit w' = EIO"
proof (cases "next_timeout_err env < 0")
  case True
  then show ?thesis using assms by (auto simp: hmcfgusb_poll_timeout_error)
next
  case False
  then have e: "0 \<le> next_timeout_err env" by simp
  show ?thesis
  proof (cases "next_timeout_err env = 0 \<or> next_timeout_tv env \<noteq> (0, 0)")
    case True
    define w2 where "w2 = poll_step (if next_timeout_err env = 0 then timeout else fst (next_timeout_tv env))
                            env (w\<lparr>errno := 0\<rparr>)"
    have "hmcfgusb_poll timeout env w
        = (if pfd_in_bounds (dev w) then Some (poll_dispatch env w2) else None)"
      unfolding w2_def by (rule hmcfgusb_poll_polling [OF e True])
    then have "poll_dispatch env w2 = (r, w')"
      using assms by (simp split: if_splits)
    then have "w' = snd (poll_dispatch env w2)" by simp
    moreover have "quit w2 = quit w" by (simp add: w2_def poll_step_fields)
    ultimately show ?thesis using poll_dispatch_quit [of env w2] by simp
  next
    case False
    then have "0 < next_timeout_err env" "next_timeout_tv env = (0, 0)" using e by auto
    then have "Some (r, w') = Some (poll_service env (w\<lparr>errno := 0\<rparr>))"
      using assms by (simp add: hmcfgusb_poll_zero_timer)
    then have "w' = snd (poll_service env (w\<lparr>errno := 0\<rparr>))" by (metis option.inject snd_conv)
    then show ?thesis using poll_service_quit [of env "w\<lparr>errno := 0\<rparr>"] by simp
  qed
qed

lemma hmcfgusb_poll_reports:
  assumes "wf_dev (dev w)"
    and "0 \<le> next_timeout_err env" and "0 \<le> poll_ret env" and "0 \<le> handle_events_err env"
    and "\<forall>k. nat (n_usb_pfd (dev w)) \<le> k \<longrightarrow> poll_revents env k = 0"
  shows "\<exists>w'. hmcfgusb_poll timeout env w = Some (- 1, w') \<and> errno w' = quit w'"
proof (cases "next_timeout_err env = 0 \<or> next_timeout_tv env \<noteq> (0, 0)")
  case True
  define s where "s = (if next_timeout_err env = 0 then timeout else fst (next_timeout_tv env))"
  define w2 where "w2 = poll_step s env (w\<lparr>errno := 0\<rparr>)"
  obtain xs where xs: "pfd (dev w) = Some xs"
    using assms(1) by (auto simp: wf_dev_def split: option.splits)
  define ys where "ys = poll_store (poll_revents env) 0 (map (\<lambda>p. p\<lparr>revents := 0\<rparr>) xs)"
  have ib: "pfd_in_bounds (dev w)" using assms(1) by (rule wf_dev_in_bounds)
  have "int (length xs) = n_pfd (dev w)"
    using assms(1) xs by (simp add: wf_dev_def)
  then have len: "nat (n_pfd (dev w)) = length xs" by linarith
  have eq: "hmcfgusb_poll timeout env w = Some (poll_dispatch env w2)"
    using hmcfgusb_poll_polling [OF assms(2) True, of timeout w] ib by (simp add: w2_def s_def)
  have p2: "pfd (dev w2) = Some ys"
    using poll_step_pfd [of "w\<lparr>errno := 0\<rparr>" xs s env] assms(1) xs by (simp add: w2_def ys_def)
  have n2: "n_pfd (dev w2) = n_pfd (dev w)" "n_usb_pfd (dev w2) = n_usb_pfd (dev w)"
    by (simp_all add: w2_def poll_step_fields)
  have "scan_pfd (n_usb_pfd (dev w)) (int 0) ys \<noteq> Return_fd f" for f
    unfolding ys_def using assms(5) by (rule scan_poll_store_no_caller)
  then have "\<forall>f. scan_pfd (n_usb_pfd (dev w2)) 0
          (take (nat (n_pfd (dev w2))) (pfd_entries (dev w2))) \<noteq> Return_fd f"
    by (simp add: p2 n2 len ys_def pfd_entries_def)
  then have "fst (poll_dispatch env w2) = - 1
       \<and> errno (snd (poll_dispatch env w2)) = quit (snd (poll_dispatch env w2))"
    using assms(3,4) by (intro poll_dispatch_reports) auto
  moreover have "hmcfgusb_poll timeout env w = Some (fst (poll_dispatch env w2), snd (poll_dispatch env w2))"
    using eq by simp
  ultimately show ?thesis by auto
next
  case False
  then have "0 < next_timeout_err env" "next_timeout_tv env = (0, 0)" using assms(2) by auto
  then have "hmcfgusb_poll timeout env w
      = Some (fst (poll_service env (w\<lparr>errno := 0\<rparr>)), snd (poll_service env (w\<lparr>errno := 0\<rparr>)))"
    by (simp add: hmcfgusb_poll_zero_timer)
  then show ?thesis
    using poll_service_reports [OF assms(4), of "w\<lparr>errno := 0\<rparr>"] by auto
qed

text \<open>
  C5. When \<open>libusb_get_next_timeout\<close> reports a pending timer (positive return
  value) with exactly zero remaining time, the wait call returns, it makes no \<open>poll\<close>
  call at all, and the first thing it does is to run libusb's event handling.
\<close>

theorem poll_skipped_on_zero_timer:
  assumes "0 < next_timeout_err env" and "next_timeout_tv env = (0, 0)"
  shows "\<exists>r w' es. hmcfgusb_poll timeout env w = Some (r, w')
           \<and> trace w' = trace w @ Ev_handle_events # es
           \<and> poll_timeouts es = []"
proof -
  obtain es where es: "trace (snd (poll_service env (w\<lparr>errno := 0\<rparr>))) = trace w @ Ev_handle_events # es"
      "poll_timeouts es = []"
    using poll_service_trace [of env "w\<lparr>errno := 0\<rparr>"] by auto
  have "hmcfgusb_poll timeout env w
      = Some (fst (poll_service env (w\<lparr>errno := 0\<rparr>)), snd (poll_service env (w\<lparr>errno := 0\<rparr>)))"
    using assms by (simp add: hmcfgusb_poll_zero_timer)
  then show ?thesis using es by blast
qed

theorem poll_skipped_on_zero_timer_witness:
  "0 < next_timeout_err (example_env 1 (0, 0) 0 [])
   \<and> next_timeout_tv (example_env 1 (0, 0) 0 []) = (0, 0)
   \<and> returned (hmcfgusb_poll 30 (example_env 1 (0, 0) 0 []) (example_world 0)) \<noteq> None
   \<and> map_option (poll_timeouts \<circ> trace)
        (world_after (hmcfgusb_poll 30 (example_env 1 (0, 0) 0 []) (example_world 0))) = Some []
   \<and> map_option (hd \<circ> trace)
        (world_after (hmcfgusb_poll 30 (example_env 1 (0, 0) 0 []) (example_world 0)))
       = Some Ev_handle_events"
proof -
  have a: "0 < next_timeout_err (example_env 1 (0, 0) 0 [])"
    and b: "next_timeout_tv (example_env 1 (0, 0) 0 []) = (0, 0)"
    by (simp_all add: example_env_def)
  have t: "trace (example_world 0) = []" by (simp add: example_world_def)
  show ?thesis
    using poll_skipped_on_zero_timer [OF a b, of 30 "example_world 0"] a b t
    by (auto simp: returned_def world_after_def)
qed

text \<open>
  C6, as amended. When \<open>libusb_get_next_timeout\<close> reports a pending timer with nonzero
  remaining time \<open>(s, us)\<close>, the wait call (on a handle whose list covers its count)
  polls exactly once, and the bound it passes is \<open>s * 1000\<close> milliseconds converted
  to \<open>int\<close>, whatever the caller's timeout and whatever the microseconds \<open>us\<close>: the
  whole seconds of the remaining time are used, the sub-second fraction is dropped. The
  conversion changes nothing while \<open>s * 1000\<close> fits an \<open>int\<close>.
\<close>

theorem poll_bound_is_whole_seconds:
  assumes "0 < next_timeout_err env" and "next_timeout_tv env = (s, us)" and "\<not> (s = 0 \<and> us = 0)"
    and "pfd_in_bounds (dev w)"
  shows "(\<exists>r w'. hmcfgusb_poll timeout env w = Some (r, w')
            \<and> poll_timeouts (trace w') = poll_timeouts (trace w) @ [c_int (s * 1000)])
       \<and> (0 \<le> s \<and> s * 1000 \<le> INT_MAX \<longrightarrow> c_int (s * 1000) = s * 1000)"
proof -
  define w2 where "w2 = poll_step s env (w\<lparr>errno := 0\<rparr>)"
  have nz: "next_timeout_err env = 0 \<or> next_timeout_tv env \<noteq> (0, 0)"
    using assms(2,3) by auto
  have e: "0 \<le> next_timeout_err env" "next_timeout_err env \<noteq> 0" using assms(1) by simp_all
  have ib: "pfd_in_bounds (dev w)" using assms(4) .
  have eq: "hmcfgusb_poll timeout env w = Some (poll_dispatch env w2)"
    using hmcfgusb_poll_polling [OF e(1) nz, of timeout w] e(2) ib assms(2) by (simp add: w2_def)
  obtain p n k where t2: "trace w2 = trace w @ [Ev_poll p n (c_int (s * 1000)) k]"
    using poll_step_fields(4) [of s env "w\<lparr>errno := 0\<rparr>"] by (auto simp: w2_def)
  obtain es where es: "trace (snd (poll_dispatch env w2)) = trace w2 @ es" "poll_timeouts es = []"
    using poll_dispatch_trace by blast
  have "hmcfgusb_poll timeout env w = Some (fst (poll_dispatch env w2), snd (poll_dispatch env w2))"
    using eq by simp
  moreover have "poll_timeouts (trace (snd (poll_dispatch env w2)))
      = poll_timeouts (trace w) @ [c_int (s * 1000)]"
    using t2 es by simp
  ultimately have 1: "\<exists>r w'. hmcfgusb_poll timeout env w = Some (r, w')
            \<and> poll_timeouts (trace w') = poll_timeouts (trace w) @ [c_int (s * 1000)]"
    by blast
  have 2: "0 \<le> s \<and> s * 1000 \<le> INT_MAX \<longrightarrow> c_int (s * 1000) = s * 1000"
    by (simp add: c_int_def INT_MAX_def)
  show ?thesis using 1 2 by blast
qed

theorem poll_bound_is_whole_seconds_witness:
  "0 < next_timeout_err (example_env 1 (2, 500000) 0 [])
   \<and> next_timeout_tv (example_env 1 (2, 500000) 0 []) = (2, 500000)
   \<and> pfd_in_bounds (dev (example_world 0))
   \<and> map_option (poll_timeouts \<circ> trace)
        (world_after (hmcfgusb_poll 30 (example_env 1 (2, 500000) 0 []) (example_world 0))) = Some [2000]"
proof -
  have a: "0 < next_timeout_err (example_env 1 (2, 500000) 0 [])"
    and b: "next_timeout_tv (example_env 1 (2, 500000) 0 []) = (2, 500000)"
    by (simp_all add: example_env_def)
  have c: "\<not> ((2 :: int) = 0 \<and> (500000 :: int) = 0)" by simp
  have wf: "pfd_in_bounds (dev (example_world 0))"
    by (simp add: example_world_def example_dev_def pfd_in_bounds_def)
  have t: "trace (example_world 0) = []" by (simp add: example_world_def)
  have r: "(0 :: int) \<le> 2 \<and> (2 :: int) * 1000 \<le> INT_MAX" by (simp add: INT_MAX_def)
  show ?thesis
    using poll_bound_is_whole_seconds [OF a b c wf, of 30] a b wf t r
    by (auto simp: returned_def world_after_def)
qed

text \<open>
  The claim as stated fails: with half a second remaining, \<open>(0, 500000)\<close>, the bound
  passed to \<open>poll\<close> is 0 milliseconds, not 500.
\<close>

theorem poll_drops_sub_second_fraction:
  "0 < next_timeout_err (example_env 1 (0, 500000) 0 [])
   \<and> next_timeout_tv (example_env 1 (0, 500000) 0 []) = (0, 500000)
   \<and> map_option (poll_timeouts \<circ> trace)
        (world_after (hmcfgusb_poll 30 (example_env 1 (0, 500000) 0 []) (example_world 0))) = Some [0]"
  by (simp add: example_defs world_after_def hmcfgusb_poll_def Let_def pfd_in_bounds_def
      poll_step_def poll_dispatch_def poll_service_def poll_finish_def clear_revents_def poll_write_def
      pfd_entries_def
      libusb_handle_events_timeout_completed_def c_int_def)

lemma hmcfgusb_poll_caller_ready:
  assumes "wf_dev (dev w)" and "pfd (dev w) = Some xs"
    and "0 \<le> next_timeout_err env"
    and "next_timeout_err env = 0 \<or> next_timeout_tv env \<noteq> (0, 0)"
    and "0 < poll_ret env"
    and "nat (n_usb_pfd (dev w)) \<le> k" and "k < length xs" and "poll_revents env k \<noteq> 0"
    and "\<forall>j<k. poll_revents env j = 0"
  shows "\<exists>w'. hmcfgusb_poll timeout env w = Some (fd (xs ! k), w')
           \<and> errno w' = 0 \<and> quit w' = quit w
           \<and> consumer_calls (trace w') = consumer_calls (trace w)
           \<and> xfers w' = xfers w"
proof -
  define s where "s = (if next_timeout_err env = 0 then timeout else fst (next_timeout_tv env))"
  define w2 where "w2 = poll_step s env (w\<lparr>errno := 0\<rparr>)"
  define ys where "ys = poll_store (poll_revents env) 0 (map (\<lambda>p. p\<lparr>revents := 0\<rparr>) xs)"
  have ib: "pfd_in_bounds (dev w)" using assms(1) by (rule wf_dev_in_bounds)
  have "int (length xs) = n_pfd (dev w)" and nu: "0 \<le> n_usb_pfd (dev w)"
    using assms(1,2) by (simp_all add: wf_dev_def)
  then have len: "nat (n_pfd (dev w)) = length xs" by linarith
  have eq: "hmcfgusb_poll timeout env w = Some (poll_dispatch env w2)"
    using hmcfgusb_poll_polling [OF assms(3,4), of timeout w] ib by (simp add: w2_def s_def)
  have p2: "pfd (dev w2) = Some ys"
    using poll_step_pfd [of "w\<lparr>errno := 0\<rparr>" xs s env] assms(1,2) by (simp add: w2_def ys_def)
  have n2: "n_pfd (dev w2) = n_pfd (dev w)" "n_usb_pfd (dev w2) = n_usb_pfd (dev w)"
    by (simp_all add: w2_def poll_step_fields)
  have "scan_pfd (n_usb_pfd (dev w)) (int 0) ys
          = Return_fd (fd (map (\<lambda>p. p\<lparr>revents := 0\<rparr>) xs ! (k - 0)))"
    unfolding ys_def
    using assms(6-9) nu by (intro scan_poll_store_first_ready) auto
  then have sc: "scan_pfd (n_usb_pfd (dev w)) 0 ys = Return_fd (fd (xs ! k))"
    using assms(7) by simp
  have "scan_pfd (n_usb_pfd (dev w2)) 0
          (take (nat (n_pfd (dev w2))) (pfd_entries (dev w2)))
        = Return_fd (fd (xs ! k))"
    using sc by (simp add: p2 n2 len ys_def pfd_entries_def)
  then have d: "poll_dispatch env w2 = (fd (xs ! k), w2\<lparr>errno := 0\<rparr>)"
    using assms(5) by (rule poll_dispatch_caller_fd [rotated])
  obtain p n r where t2: "trace w2 = trace w @ [Ev_poll p n (c_int (s * 1000)) r]"
    using poll_step_fields(4) [of s env "w\<lparr>errno := 0\<rparr>"] by (auto simp: w2_def)
  have "hmcfgusb_poll timeout env w = Some (fd (xs ! k), w2\<lparr>errno := 0\<rparr>)"
    using eq d by simp
  moreover have "errno (w2\<lparr>errno := 0\<rparr>) = 0" by simp
  moreover have "quit (w2\<lparr>errno := 0\<rparr>) = quit w" by (simp add: w2_def poll_step_fields)
  moreover have "consumer_calls (trace (w2\<lparr>errno := 0\<rparr>)) = consumer_calls (trace w)"
    using t2 by simp
  moreover have "xfers (w2\<lparr>errno := 0\<rparr>) = xfers w" by (simp add: w2_def poll_step_fields)
  ultimately show ?thesis by blast
qed

lemma scan_poll_store_internal_ready:
  assumes "i \<le> j" and "j < i + length ys" and "rv j \<noteq> 0" and "j < nat n_usb"
  shows "scan_pfd n_usb (int i) (poll_store rv i ys) = Usb_event"
  using assms
proof (induction ys arbitrary: i)
  case Nil
  then show ?case by simp
next
  case (Cons p ps)
  have s: "int i + 1 = int (Suc i)" by simp
  have lt: "int i < n_usb" using Cons.prems(1,4) by linarith
  show ?case
  proof (cases "rv i = 0")
    case True
    then have "i \<noteq> j" using Cons.prems(3) by auto
    then have "Suc i \<le> j" using Cons.prems(1) by simp
    then have "scan_pfd n_usb (int (Suc i)) (poll_store rv (Suc i) ps) = Usb_event"
      using Cons.prems by (intro Cons.IH) auto
    then show ?thesis using True by (simp add: s del: of_nat_Suc)
  next
    case False
    then show ?thesis using lt by simp
  qed
qed

lemma poll_service_returns: "fst (poll_service env w) = - 1"
  by (simp add: poll_service_def Let_def poll_finish_fields)

lemma poll_dispatch_usb_event:
  assumes "0 < poll_ret env"
    and "scan_pfd (n_usb_pfd (dev w)) 0 (take (nat (n_pfd (dev w))) (pfd_entries (dev w))) = Usb_event"
  shows "poll_dispatch env w = poll_service env w"
  using assms by (simp add: poll_dispatch_def Let_def)

lemma hmcfgusb_poll_internal_ready:
  assumes "wf_dev (dev w)" and "pfd (dev w) = Some xs"
    and "0 \<le> next_timeout_err env"
    and "next_timeout_err env = 0 \<or> next_timeout_tv env \<noteq> (0, 0)"
    and "0 < poll_ret env"
    and "j < nat (n_usb_pfd (dev w))" and "poll_revents env j \<noteq> 0"
  shows "\<exists>w' p n ms r es. hmcfgusb_poll timeout env w = Some (- 1, w')
           \<and> trace w' = trace w @ Ev_poll p n ms r # Ev_handle_events # es"
proof -
  define s where "s = (if next_timeout_err env = 0 then timeout else fst (next_timeout_tv env))"
  define w2 where "w2 = poll_step s env (w\<lparr>errno := 0\<rparr>)"
  define ys where "ys = poll_store (poll_revents env) 0 (map (\<lambda>p. p\<lparr>revents := 0\<rparr>) xs)"
  have ib: "pfd_in_bounds (dev w)" using assms(1) by (rule wf_dev_in_bounds)
  have l: "int (length xs) = n_pfd (dev w)" and nu: "n_usb_pfd (dev w) \<le> n_pfd (dev w)"
    using assms(1,2) by (simp_all add: wf_dev_def)
  then have len: "nat (n_pfd (dev w)) = length xs" by linarith
  have jl: "j < length xs" using assms(6) nu l by linarith
  have eq: "hmcfgusb_poll timeout env w = Some (poll_dispatch env w2)"
    using hmcfgusb_poll_polling [OF assms(3,4), of timeout w] ib by (simp add: w2_def s_def)
  have p2: "pfd (dev w2) = Some ys"
    using poll_step_pfd [of "w\<lparr>errno := 0\<rparr>" xs s env] assms(1,2) by (simp add: w2_def ys_def)
  have n2: "n_pfd (dev w2) = n_pfd (dev w)" "n_usb_pfd (dev w2) = n_usb_pfd (dev w)"
    by (simp_all add: w2_def poll_step_fields)
  have "scan_pfd (n_usb_pfd (dev w)) (int 0) ys = Usb_event"
    unfolding ys_def
    using assms(6,7) jl by (intro scan_poll_store_internal_ready [of 0 j]) auto
  then have "scan_pfd (n_usb_pfd (dev w2)) 0 (take (nat (n_pfd (dev w2))) (pfd_entries (dev w2)))
        = Usb_event"
    by (simp add: p2 n2 len ys_def pfd_entries_def)
  then have d: "poll_dispatch env w2 = poll_service env w2"
    using assms(5) by (rule poll_dispatch_usb_event [rotated])
  obtain p n r where t2: "trace w2 = trace w @ [Ev_poll p n (c_int (s * 1000)) r]"
    using poll_step_fields(4) [of s env "w\<lparr>errno := 0\<rparr>"] by (auto simp: w2_def)
  obtain es where es: "trace (snd (poll_service env w2)) = trace w2 @ Ev_handle_events # es"
    using poll_service_trace by blast
  have "hmcfgusb_poll timeout env w = Some (- 1, snd (poll_service env w2))"
    using eq d poll_service_returns [of env w2] by (metis prod.collapse)
  moreover have "trace (snd (poll_service env w2))
      = trace w @ Ev_poll p n (c_int (s * 1000)) r # Ev_handle_events # es"
    using t2 es by simp
  ultimately show ?thesis by blast
qed

text \<open>
  C2, as amended. On a consistent handle, when the poll step runs and \<open>poll\<close> returns
  a positive count: if the first entry reported ready is entry \<open>k\<close> of the
  caller-registered segment (so no entry of libusb's is reported ready), the wait call
  returns the descriptor of entry \<open>k\<close> with \<open>errno\<close> 0, without running any callback
  and without touching \<open>quit\<close> or the transfers; if some entry \<open>j\<close> of libusb's is
  reported ready, whatever else is ready, the round goes to internal servicing: right
  after \<open>poll\<close> the call runs libusb's event handling, and it returns -1.
\<close>

theorem poll_returns_first_ready_caller_fd:
  assumes "wf_dev (dev w)" and "pfd (dev w) = Some xs"
    and "0 \<le> next_timeout_err env"
    and "next_timeout_err env = 0 \<or> next_timeout_tv env \<noteq> (0, 0)"
    and "0 < poll_ret env"
  shows "(nat (n_usb_pfd (dev w)) \<le> k \<and> k < length xs \<and> poll_revents env k \<noteq> 0
            \<and> (\<forall>i<k. poll_revents env i = 0)
          \<longrightarrow> (\<exists>w'. hmcfgusb_poll timeout env w = Some (fd (xs ! k), w')
                 \<and> errno w' = 0 \<and> quit w' = quit w
                 \<and> consumer_calls (trace w') = consumer_calls (trace w)
                 \<and> xfers w' = xfers w))
       \<and> (j < nat (n_usb_pfd (dev w)) \<and> poll_revents env j \<noteq> 0
          \<longrightarrow> (\<exists>w' p n ms r es. hmcfgusb_poll timeout env w = Some (- 1, w')
                 \<and> trace w' = trace w @ Ev_poll p n ms r # Ev_handle_events # es))"
proof (intro conjI impI)
  assume "nat (n_usb_pfd (dev w)) \<le> k \<and> k < length xs \<and> poll_revents env k \<noteq> 0
            \<and> (\<forall>i<k. poll_revents env i = 0)"
  then show "\<exists>w'. hmcfgusb_poll timeout env w = Some (fd (xs ! k), w')
                 \<and> errno w' = 0 \<and> quit w' = quit w
                 \<and> consumer_calls (trace w') = consumer_calls (trace w)
                 \<and> xfers w' = xfers w"
    using hmcfgusb_poll_caller_ready [OF assms, of k timeout] by blast
next
  assume "j < nat (n_usb_pfd (dev w)) \<and> poll_revents env j \<noteq> 0"
  then show "\<exists>w' p n ms r es. hmcfgusb_poll timeout env w = Some (- 1, w')
                 \<and> trace w' = trace w @ Ev_poll p n ms r # Ev_handle_events # es"
    using hmcfgusb_poll_internal_ready [OF assms, of j timeout] by blast
qed

text \<open>
  Two rounds on the example handle: only the caller's descriptor 7 (entry 1) ready, and
  both entries ready.
\<close>

theorem poll_returns_first_ready_caller_fd_witness:
  "wf_dev (dev (example_world 0))
   \<and> 0 < poll_ret (example_env 0 (0, 0) 1 [1])
   \<and> poll_revents (example_env 0 (0, 0) 1 [1]) 1 \<noteq> 0
   \<and> returned (hmcfgusb_poll 30 (example_env 0 (0, 0) 1 [1]) (example_world 0)) = Some 7
   \<and> 0 < poll_ret (example_env 0 (0, 0) 2 [0, 1])
   \<and> poll_revents (example_env 0 (0, 0) 2 [0, 1]) 0 \<noteq> 0
   \<and> returned (hmcfgusb_poll 30 (example_env 0 (0, 0) 2 [0, 1]) (example_world 0)) = Some (- 1)"
proof -
  have wf: "wf_dev (dev (example_world 0))"
    by (simp add: example_world_def example_dev_def wf_dev_def)
  have xs: "pfd (dev (example_world 0))
              = Some [\<lparr>fd = 3, events = 1, revents = 0\<rparr>, \<lparr>fd = 7, events = 1, revents = 0\<rparr>]"
    by (simp add: example_world_def example_dev_def)
  have e: "0 \<le> next_timeout_err (example_env 0 (0, 0) 1 [1])"
    and nz: "next_timeout_err (example_env 0 (0, 0) 1 [1]) = 0
             \<or> next_timeout_tv (example_env 0 (0, 0) 1 [1]) \<noteq> (0, 0)"
    and n: "0 < poll_ret (example_env 0 (0, 0) 1 [1])"
    and r: "poll_revents (example_env 0 (0, 0) 1 [1]) 1 \<noteq> 0"
    and z: "\<forall>i<1. poll_revents (example_env 0 (0, 0) 1 [1]) i = 0"
    by (simp_all add: example_env_def)
  have e2: "0 \<le> next_timeout_err (example_env 0 (0, 0) 2 [0, 1])"
    and nz2: "next_timeout_err (example_env 0 (0, 0) 2 [0, 1]) = 0
             \<or> next_timeout_tv (example_env 0 (0, 0) 2 [0, 1]) \<noteq> (0, 0)"
    and n2: "0 < poll_ret (example_env 0 (0, 0) 2 [0, 1])"
    and r2: "poll_revents (example_env 0 (0, 0) 2 [0, 1]) 0 \<noteq> 0"
    by (simp_all add: example_env_def)
  have k: "nat (n_usb_pfd (dev (example_world 0))) \<le> 1" "0 < nat (n_usb_pfd (dev (example_world 0)))"
    by (simp_all add: example_world_def example_dev_def)
  have l: "1 < length [\<lparr>fd = 3, events = 1, revents = 0\<rparr>, \<lparr>fd = 7, events = 1, revents = 0\<rparr>]"
    by simp
  have a: "returned (hmcfgusb_poll 30 (example_env 0 (0, 0) 1 [1]) (example_world 0)) = Some 7"
    using poll_returns_first_ready_caller_fd
        [OF wf xs e nz n, where k = 1 and j = 0 and timeout = 30] k l r z
    by (auto simp: returned_def)
  have b: "returned (hmcfgusb_poll 30 (example_env 0 (0, 0) 2 [0, 1]) (example_world 0)) = Some (- 1)"
    using poll_returns_first_ready_caller_fd
        [OF wf xs e2 nz2 n2, where k = 1 and j = 0 and timeout = 30] k r2
    by (auto simp: returned_def)
  show ?thesis using wf n r a n2 r2 b by simp
qed

text \<open>
  The claim as stated fails: entry 0 (libusb's) and entry 1 (the caller's descriptor 7)
  are both reported ready. The scan stops at entry 0, the round goes to event handling,
  and the call returns -1 instead of 7.
\<close>

theorem poll_internal_ready_hides_caller_fd:
  "poll_revents (example_env 0 (0, 0) 2 [0, 1]) 1 \<noteq> 0
   \<and> map_option (poll_timeouts \<circ> trace)
        (world_after (hmcfgusb_poll 30 (example_env 0 (0, 0) 2 [0, 1]) (example_world 0))) = Some [30000]
   \<and> returned (hmcfgusb_poll 30 (example_env 0 (0, 0) 2 [0, 1]) (example_world 0)) = Some (- 1)"
  by (simp add: example_defs world_after_def returned_def hmcfgusb_poll_def Let_def pfd_in_bounds_def
      poll_step_def poll_dispatch_def poll_service_def poll_finish_def clear_revents_def poll_write_def
      pfd_entries_def
      libusb_handle_events_timeout_completed_def c_int_def)

text \<open>
  After a failed registration the next wait call that gets to its poll step indexes
  the \<open>NULL\<close> list.
\<close>

lemma hmcfgusb_poll_after_failed_add:
  assumes "0 \<le> n_pfd (dev w)" and "fst (hmcfgusb_add_pfd fdv ev junk ok w) = 0"
    and "0 \<le> next_timeout_err env" and "next_timeout_err env = 0 \<or> next_timeout_tv env \<noteq> (0, 0)"
  shows "hmcfgusb_poll timeout env (snd (hmcfgusb_add_pfd fdv ev junk ok w)) = None"
proof -
  from assms(2) have nok: "\<not> ok"
    by (auto simp: hmcfgusb_add_pfd_def realloc_pfd_def Let_def split: if_splits)
  have "\<not> pfd_in_bounds (dev (snd (hmcfgusb_add_pfd fdv ev junk ok w)))"
    using nok assms(1) by (simp add: hmcfgusb_add_pfd_def realloc_pfd_def Let_def pfd_in_bounds_def)
  then show ?thesis
    using hmcfgusb_poll_polling [OF assms(3,4)] by simp
qed

subsection \<open>Opening the channel\<close>

text \<open>
  A successful \<open>hmcfgusb_init\<close> leaves a consistent handle, the engine ARMED and
  \<open>quit\<close> at 0.
\<close>

lemma hmcfgusb_prepare_int_Some:
  "hmcfgusb_prepare_int b al e w = (Some a, w') \<Longrightarrow> xfers w' a = Some In_flight"
  by (auto simp: hmcfgusb_prepare_int_def Let_def split: option.splits if_splits)

lemma hmcfgusb_init_success:
  assumes "fst (hmcfgusb_init env w)"
  obtains h w1 a w2 ps where
    "hmcfgusb_find (device_list env) w = (Some h, w1)"
    "hmcfgusb_prepare_int (malloc_buf_ok env) (alloc_transfer env) (submit_err env) w1 = (Some a, w2)"
    "get_pollfds env = Some ps"
    "snd (hmcfgusb_init env w)
       = w2\<lparr>dev := \<lparr>usb_devh = h, transfer = Some a, n_usb_pfd = int (length ps),
                     pfd = Some (map (\<lambda>(f, e). \<lparr>fd = f, events = e, revents = 0\<rparr>) ps),
                     n_pfd = int (length ps)\<rparr>,
            quit := 0\<rparr>"
proof -
  obtain r1 w1 where f: "hmcfgusb_find (device_list env) w = (r1, w1)"
    by (cases "hmcfgusb_find (device_list env) w")
  obtain r2 w2 where p: "hmcfgusb_prepare_int (malloc_buf_ok env) (alloc_transfer env) (submit_err env) w1 = (r2, w2)"
    by (cases "hmcfgusb_prepare_int (malloc_buf_ok env) (alloc_transfer env) (submit_err env) w1")
  have e0: "libusb_init_err env = 0"
    using assms by (auto simp: hmcfgusb_init_def split: if_splits)
  obtain h where h: "r1 = Some h"
    using assms e0 f by (cases r1) (simp_all add: hmcfgusb_init_def)
  have m: "malloc_dev_ok env" "malloc_cb_data_ok env"
    using assms e0 f h by (auto simp: hmcfgusb_init_def split: if_splits)
  obtain a where a: "r2 = Some a"
    using assms e0 f h m p by (cases r2) (simp_all add: hmcfgusb_init_def)
  obtain ps where ps: "get_pollfds env = Some ps"
    using assms e0 f h m p a by (cases "get_pollfds env") (simp_all add: hmcfgusb_init_def)
  have mp: "malloc_pfd_ok env"
    using assms e0 f h m p a ps by (auto simp: hmcfgusb_init_def split: if_splits)
  show ?thesis
    using that [of h w1 a w2 ps] e0 f h m p a ps mp by (simp add: hmcfgusb_init_def)
qed

lemma hmcfgusb_init_establishes:
  assumes "fst (hmcfgusb_init env w)"
  shows "wf_dev (dev (snd (hmcfgusb_init env w)))
       \<and> quit (snd (hmcfgusb_init env w)) = 0
       \<and> engine_state (snd (hmcfgusb_init env w)) = ARMED"
  using assms
proof (cases rule: hmcfgusb_init_success)
  case (1 h w1 a w2 ps)
  have "xfers w2 a = Some In_flight" using 1(2) by (rule hmcfgusb_prepare_int_Some)
  then show ?thesis by (simp add: 1(4) wf_dev_def engine_state_def)
qed

subsection \<open>The quit flag\<close>

text \<open>Who assigns \<open>quit\<close>: only \<open>hmcfgusb_init\<close> and the completion callback.\<close>

lemma find_loop_quit: "quit (snd (find_loop us w)) = quit w"
  by (induction us) simp_all

lemma hmcfgusb_find_quit: "quit (snd (hmcfgusb_find lst w)) = quit w"
  by (simp add: hmcfgusb_find_def find_loop_quit split: option.splits)

lemma hmcfgusb_prepare_int_quit: "quit (snd (hmcfgusb_prepare_int b a e w)) = quit w"
  by (simp add: hmcfgusb_prepare_int_def Let_def split: option.splits)

lemma hmcfgusb_init_quit:
  "quit (snd (hmcfgusb_init env w)) = (if fst (hmcfgusb_init env w) then 0 else quit w)"
proof -
  obtain r1 w1 where f: "hmcfgusb_find (device_list env) w = (r1, w1)"
    by (cases "hmcfgusb_find (device_list env) w")
  have q1: "quit w1 = quit w" using hmcfgusb_find_quit [of "device_list env" w] f by simp
  obtain r2 w2 where p: "hmcfgusb_prepare_int (malloc_buf_ok env) (alloc_transfer env) (submit_err env) w1 = (r2, w2)"
    by (cases "hmcfgusb_prepare_int (malloc_buf_ok env) (alloc_transfer env) (submit_err env) w1")
  have q2: "quit w2 = quit w"
    using hmcfgusb_prepare_int_quit [of "malloc_buf_ok env" "alloc_transfer env" "submit_err env" w1] p q1
    by simp
  show ?thesis
    using f p q1 q2 by (simp add: hmcfgusb_init_def split: option.splits)
qed

lemma hmcfgusb_add_pfd_quit: "quit (snd (hmcfgusb_add_pfd fdv ev junk ok w)) = quit w"
  by (simp add: hmcfgusb_add_pfd_def Let_def split: option.splits)

lemma hmcfgusb_close_quit: "quit (hmcfgusb_close e w) = quit w"
  by (simp add: hmcfgusb_close_def Let_def split: option.splits)

lemma hmcfgusb_set_debug_quit: "quit (hmcfgusb_set_debug d w) = quit w"
  by (simp add: hmcfgusb_set_debug_def)

lemma hmcfgusb_send_quit: "quit (snd (hmcfgusb_send send_data len done err1 err2 w)) = quit w"
  by (simp add: hmcfgusb_send_def Let_def)

text \<open>
  C4, as amended. A successful \<open>hmcfgusb_init\<close> leaves \<open>quit\<close> at 0, and a failed one
  leaves it as it was. Once \<open>quit\<close> is nonzero, \<open>hmcfgusb_send\<close>,
  \<open>hmcfgusb_add_pfd\<close>, \<open>hmcfgusb_set_debug\<close> and \<open>hmcfgusb_close\<close> do not change it,
  and neither the completion callback nor a wait call makes it zero. A wait call on a
  consistent handle in which \<open>libusb_get_next_timeout\<close>, \<open>poll\<close> and the event
  handling report no error and \<open>poll\<close> reports no caller-registered descriptor ready
  returns -1 with \<open>errno\<close> equal to the stored code, which is the code stored before
  the call or \<open>EIO\<close>.
\<close>

theorem quit_latched_until_init:
  "(fst (hmcfgusb_init ienv w) \<longrightarrow> quit (snd (hmcfgusb_init ienv w)) = 0)
   \<and> (\<not> fst (hmcfgusb_init ienv w) \<longrightarrow> quit (snd (hmcfgusb_init ienv w)) = quit w)
   \<and> (quit w \<noteq> 0 \<longrightarrow>
        quit (snd (hmcfgusb_send send_data len done err1 err2 w)) = quit w
        \<and> quit (snd (hmcfgusb_add_pfd fdv ev junk ok w)) = quit w
        \<and> quit (hmcfgusb_set_debug d w) = quit w
        \<and> quit (hmcfgusb_close rel w) = quit w
        \<and> quit (hmcfgusb_interrupt t e w) \<noteq> 0
        \<and> (\<forall>r w'. hmcfgusb_poll timeout env w = Some (r, w') \<longrightarrow> quit w' \<noteq> 0))
   \<and> (quit w \<noteq> 0 \<and> wf_dev (dev w)
        \<and> 0 \<le> next_timeout_err env \<and> 0 \<le> poll_ret env \<and> 0 \<le> handle_events_err env
        \<and> (\<forall>k. nat (n_usb_pfd (dev w)) \<le> k \<longrightarrow> poll_revents env k = 0)
      \<longrightarrow> (\<exists>w'. hmcfgusb_poll timeout env w = Some (- 1, w')
                \<and> errno w' = quit w' \<and> quit w' \<noteq> 0 \<and> (quit w' = quit w \<or> quit w' = EIO)))"
proof (intro conjI impI)
  assume "fst (hmcfgusb_init ienv w)"
  then show "quit (snd (hmcfgusb_init ienv w)) = 0"
    using hmcfgusb_init_quit [of ienv w] by simp
next
  assume "\<not> fst (hmcfgusb_init ienv w)"
  then show "quit (snd (hmcfgusb_init ienv w)) = quit w"
    using hmcfgusb_init_quit [of ienv w] by simp
next
  show "quit (snd (hmcfgusb_send send_data len done err1 err2 w)) = quit w"
    by (rule hmcfgusb_send_quit)
next
  show "quit (snd (hmcfgusb_add_pfd fdv ev junk ok w)) = quit w"
    by (rule hmcfgusb_add_pfd_quit)
next
  show "quit (hmcfgusb_set_debug d w) = quit w"
    by (rule hmcfgusb_set_debug_quit)
next
  show "quit (hmcfgusb_close rel w) = quit w"
    by (rule hmcfgusb_close_quit)
next
  assume "quit w \<noteq> 0"
  then show "quit (hmcfgusb_interrupt t e w) \<noteq> 0"
    using interrupt_quit [of t e w] EIO_nonzero by auto
next
  assume q: "quit w \<noteq> 0"
  show "\<forall>r w'. hmcfgusb_poll timeout env w = Some (r, w') \<longrightarrow> quit w' \<noteq> 0"
  proof (intro allI impI)
    fix r w'
    assume "hmcfgusb_poll timeout env w = Some (r, w')"
    then have "quit w' = quit w \<or> quit w' = EIO" by (rule hmcfgusb_poll_quit)
    then show "quit w' \<noteq> 0" using q EIO_nonzero by auto
  qed
next
  assume a: "quit w \<noteq> 0 \<and> wf_dev (dev w)
        \<and> 0 \<le> next_timeout_err env \<and> 0 \<le> poll_ret env \<and> 0 \<le> handle_events_err env
        \<and> (\<forall>k. nat (n_usb_pfd (dev w)) \<le> k \<longrightarrow> poll_revents env k = 0)"
  then obtain w' where w': "hmcfgusb_poll timeout env w = Some (- 1, w')" "errno w' = quit w'"
    using hmcfgusb_poll_reports [of w env timeout] by blast
  have "quit w' = quit w \<or> quit w' = EIO" using w'(1) by (rule hmcfgusb_poll_quit)
  then show "\<exists>w'. hmcfgusb_poll timeout env w = Some (- 1, w')
                \<and> errno w' = quit w' \<and> quit w' \<noteq> 0 \<and> (quit w' = quit w \<or> quit w' = EIO)"
    using w' a EIO_nonzero by auto
qed

theorem quit_latched_until_init_witness:
  "quit (example_world EIO) \<noteq> 0
   \<and> wf_dev (dev (example_world EIO))
   \<and> returned (hmcfgusb_poll 30 (example_env 0 (0, 0) 0 []) (example_world EIO)) = Some (- 1)
   \<and> map_option errno (world_after (hmcfgusb_poll 30 (example_env 0 (0, 0) 0 []) (example_world EIO))) \<noteq> Some 0"
proof -
  have q: "quit (example_world EIO) \<noteq> 0"
    by (simp add: example_world_def EIO_def)
  have wf: "wf_dev (dev (example_world EIO))"
    by (simp add: example_world_def example_dev_def wf_dev_def)
  have e: "0 \<le> next_timeout_err (example_env 0 (0, 0) 0 [])"
      "0 \<le> poll_ret (example_env 0 (0, 0) 0 [])"
      "0 \<le> handle_events_err (example_env 0 (0, 0) 0 [])"
      "\<forall>k. nat (n_usb_pfd (dev (example_world EIO))) \<le> k \<longrightarrow> poll_revents (example_env 0 (0, 0) 0 []) k = 0"
    by (simp_all add: example_env_def)
  show ?thesis
    using quit_latched_until_init
        [where w = "example_world EIO" and timeout = 30 and env = "example_env 0 (0, 0) 0 []"
           and ienv = "\<lparr>libusb_init_err = - 1, device_list = None, malloc_dev_ok = False,
                         malloc_cb_data_ok = False, malloc_buf_ok = False, alloc_transfer = None,
                         submit_err = 0, get_pollfds = None, malloc_pfd_ok = False\<rparr>"
           and send_data = "[]" and len = 0 and ?done = 0 and ?err1.0 = 0 and ?err2.0 = 0
           and fdv = 9 and ev = 1 and junk = "\<lparr>fd = 0, events = 0, revents = 0\<rparr>" and ok = True
           and d = 0 and rel = 0 and t = "example_transfer LIBUSB_TRANSFER_TIMED_OUT" and e = 0]
      q wf e
    by (auto simp: returned_def world_after_def)
qed

text \<open>
  The claim as stated fails: with \<open>quit\<close> already \<open>EIO\<close>, a wait call in which the
  caller's descriptor 7 is ready returns 7 with \<open>errno\<close> 0; it reports no failure and
  no error code, and \<open>quit\<close> stays \<open>EIO\<close>.
\<close>

theorem wait_returns_fd_although_quit_is_set:
  "quit (example_world EIO) = EIO
   \<and> returned (hmcfgusb_poll 30 (example_env 0 (0, 0) 1 [1]) (example_world EIO)) = Some 7
   \<and> map_option errno (world_after (hmcfgusb_poll 30 (example_env 0 (0, 0) 1 [1]) (example_world EIO))) = Some 0
   \<and> map_option quit (world_after (hmcfgusb_poll 30 (example_env 0 (0, 0) 1 [1]) (example_world EIO))) = Some EIO"
  by (simp add: example_defs world_after_def returned_def hmcfgusb_poll_def Let_def pfd_in_bounds_def
      poll_step_def poll_dispatch_def poll_service_def poll_finish_def clear_revents_def poll_write_def
      pfd_entries_def
      libusb_handle_events_timeout_completed_def c_int_def)

subsection \<open>Whole rounds\<close>

text \<open>
  Scenario A of the spec: a transfer completes with success, the consumer accepts the
  buffer. The consumer is called once, the engine is ARMED again, and the wait call
  returns -1 with \<open>errno\<close> 0 (no external event).
\<close>

lemma scenario_A:
  "returned (hmcfgusb_poll 30
      ((example_env 0 (0, 0) 0 [])\<lparr>completions := [(example_transfer LIBUSB_TRANSFER_COMPLETED, 0)]\<rparr>)
      (example_world 0)) = Some (- 1)
   \<and> map_option errno (world_after (hmcfgusb_poll 30
      ((example_env 0 (0, 0) 0 [])\<lparr>completions := [(example_transfer LIBUSB_TRANSFER_COMPLETED, 0)]\<rparr>)
      (example_world 0))) = Some 0
   \<and> map_option engine_state (world_after (hmcfgusb_poll 30
      ((example_env 0 (0, 0) 0 [])\<lparr>completions := [(example_transfer LIBUSB_TRANSFER_COMPLETED, 0)]\<rparr>)
      (example_world 0))) = Some ARMED
   \<and> map_option (consumer_calls \<circ> trace) (world_after (hmcfgusb_poll 30
      ((example_env 0 (0, 0) 0 [])\<lparr>completions := [(example_transfer LIBUSB_TRANSFER_COMPLETED, 0)]\<rparr>)
      (example_world 0))) = Some [Ev_consumer [1, 2, 3] 3 0 1]"
  by (simp add: example_defs world_after_def returned_def hmcfgusb_poll_def Let_def pfd_in_bounds_def
      poll_step_def poll_dispatch_def poll_service_def poll_finish_def clear_revents_def poll_write_def
      pfd_entries_def libusb_handle_events_timeout_completed_def c_int_def complete_transfer_def
      hmcfgusb_interrupt_def resubmit_fields engine_state_def)

text \<open>
  Scenario B of the spec: the consumer rejects the buffer. The engine is DEAD and the
  same wait call returns -1 with \<open>errno\<close> \<open>EIO\<close>.
\<close>

lemma scenario_B:
  "returned (hmcfgusb_poll 30
      ((example_env 0 (0, 0) 0 [])\<lparr>completions :=
         [((example_transfer LIBUSB_TRANSFER_COMPLETED)
             \<lparr>user_data := Some (example_cb_data\<lparr>cbd_cb := Some reject_all\<rparr>)\<rparr>, 0)]\<rparr>)
      (example_world 0)) = Some (- 1)
   \<and> map_option errno (world_after (hmcfgusb_poll 30
      ((example_env 0 (0, 0) 0 [])\<lparr>completions :=
         [((example_transfer LIBUSB_TRANSFER_COMPLETED)
             \<lparr>user_data := Some (example_cb_data\<lparr>cbd_cb := Some reject_all\<rparr>)\<rparr>, 0)]\<rparr>)
      (example_world 0))) = Some EIO
   \<and> map_option engine_state (world_after (hmcfgusb_poll 30
      ((example_env 0 (0, 0) 0 [])\<lparr>completions :=
         [((example_transfer LIBUSB_TRANSFER_COMPLETED)
             \<lparr>user_data := Some (example_cb_data\<lparr>cbd_cb := Some reject_all\<rparr>)\<rparr>, 0)]\<rparr>)
      (example_world 0))) = Some DEAD"
  by (simp add: example_defs reject_all_def world_after_def returned_def hmcfgusb_poll_def Let_def
      pfd_in_bounds_def
      poll_step_def poll_dispatch_def poll_service_def poll_finish_def clear_revents_def poll_write_def
      pfd_entries_def libusb_handle_events_timeout_completed_def c_int_def complete_transfer_def
      hmcfgusb_interrupt_def resubmit_fields engine_state_def free_dev_transfer_def)

text \<open>
  The failed resubmission of C1 seen from the caller: the engine is DEAD, yet the wait
  call returns -1 with \<open>errno\<close> 0, the same answer as in Scenario A.
\<close>

lemma scenario_resubmit_failure:
  "returned (hmcfgusb_poll 30
      ((example_env 0 (0, 0) 0 [])\<lparr>completions := [(example_transfer LIBUSB_TRANSFER_COMPLETED, - 4)]\<rparr>)
      (example_world 0)) = Some (- 1)
   \<and> map_option errno (world_after (hmcfgusb_poll 30
      ((example_env 0 (0, 0) 0 [])\<lparr>completions := [(example_transfer LIBUSB_TRANSFER_COMPLETED, - 4)]\<rparr>)
      (example_world 0))) = Some 0
   \<and> map_option engine_state (world_after (hmcfgusb_poll 30
      ((example_env 0 (0, 0) 0 [])\<lparr>completions := [(example_transfer LIBUSB_TRANSFER_COMPLETED, - 4)]\<rparr>)
      (example_world 0))) = Some DEAD"
  by (simp add: example_defs world_after_def returned_def hmcfgusb_poll_def Let_def pfd_in_bounds_def
      poll_step_def poll_dispatch_def poll_service_def poll_finish_def clear_revents_def poll_write_def
      pfd_entries_def libusb_handle_events_timeout_completed_def c_int_def complete_transfer_def
      hmcfgusb_interrupt_def resubmit_fields engine_state_def)

end
